theory Spec2Isabelle
  imports Complex_Main
begin

section \<open>Data model shared by the two pipelines\<close>

text \<open>
  The repository holds two near-duplicate pipelines: \<^verbatim>\<open>src/python_code\<close> (lexer, parser,
  interpreter) and \<^verbatim>\<open>src/caml/caml-code\<close> (the richer dialect). Both are embedded here; a
  definition with suffix \<open>_py\<close> follows the first, one with suffix \<open>_caml\<close> the second.

  Conventions of the embedding:
  \<^item> Python values that reach the evaluator are \<open>None\<close>, integers, floats, strings and
    references to list and dict objects. The lexers never produce a Python \<open>bool\<close>
    (a BOOLEAN token carries the string \<open>true\<close> or \<open>false\<close>), so there is none here.
  \<^item> Lists and dicts are mutable, shared objects: a value refers to them by address and
    the interpreter state carries the two heaps.
  \<^item> A float is represented by the real number it denotes (rounding, overflow and NaN
    are not represented); no statement below depends on float arithmetic.
  \<^item> A Python name that may be \<open>None\<close> (the parsers fill missing fields with \<open>None\<close>)
    is a \<open>string option\<close>.
  \<^item> Characters are Isabelle's 8-bit \<open>char\<close>.
\<close>

type_synonym name = "string option"

datatype val = VNone | VInt int | VFloat real | VStr string | VList nat | VDict nat

text \<open>The value of a \<^verbatim>\<open>DisplayNode\<close>: a token value, or (caml-code only) a nested
  \<^verbatim>\<open>FunctionCallNode\<close>.\<close>

datatype dvalue = DVal val | DCall name "val list"

text \<open>\<^verbatim>\<open>nodes.py\<close>: the node classes that the two parsers construct.\<close>

datatype node =
    DisplayNode dvalue bool
  | InteractNode val bool
  | AssignNode name val
  | SetNode name val
  | ChangeNode name val
  | IncreaseNode name val
  | DecreaseNode name val
  | MultiplyNode name val
  | DivideNode name val
  | ExponentiateNode name val
  | BlockVarNode name
  | FunctionDefNode name "string list" "node list"
  | FunctionCallNode name "val list"
  | FunctionAbbrevNode name name
  | IfNode val "node list"
  | OrIfNode val "node list"
  | OtherwiseNode "node list"
  | RepeatNode val "node list"
  | DoUntilNode val "node list"
  | ForEachNode name name "node list"
  | ListNode name "val list"
  | ListAddNode name val
  | DictionaryNode name "(string \<times> val) list"
  | ObjectNode name "node list" bool
  | ButtonNode name name "node list"
  | MathFuncNode name "val list"
  | FileNode name name name bool name name
  | GetLengthNode val
  | GetCaseNode val name
  | GetTypeNode val
  | ImportNode "string list" name
  | ExportNode "string list"

text \<open>Exceptions that the modelled code can raise.\<close>

datatype error =
    TypeError
  | ZeroDivisionError
  | ValueError
  | EOFError
  | IndexError
  | FunctionNotDefined name
  | NoVisitMethod

text \<open>One event of the input stream read by \<^verbatim>\<open>input()\<close>: a line of text, or a keyboard
  interrupt. The empty stream is end of file.\<close>

datatype in_event = Line string | Interrupt

text \<open>The fields of \<^verbatim>\<open>Interpreter.__init__\<close>, the two object heaps, and the console.\<close>

record interp =
  variables :: "name \<rightharpoonup> val"
  funcs :: "name \<rightharpoonup> (name \<times> string list \<times> node list)"
  lists :: "name \<rightharpoonup> nat"
  dicts :: "name \<rightharpoonup> nat"
  modules :: "name \<rightharpoonup> string list"
  call_stack :: "name list"
  list_heap :: "nat \<Rightarrow> val list"
  list_next :: nat
  dict_heap :: "nat \<Rightarrow> (string \<times> val) list"
  dict_next :: nat
  stdout :: "string list"
  stdin :: "in_event list"

text \<open>The outcome of a handler: a returned value, a raised exception (each with the
  interpreter state at that point), or exhaustion of the evaluation fuel.\<close>

datatype result = Ok val interp | Err error interp | Timeout

text \<open>
  What lies outside the modelled fragment is a parameter of the evaluator:
  \<^item> \<open>callables\<close>: the callable objects of the module namespace that
    \<^verbatim>\<open>globals().get(name)\<close> finds, chiefly what \<^verbatim>\<open>from builtins import *\<close> binds;
  \<^item> \<open>external\<close>: the handlers for the GUI, file-system, math-library and case-folding
    nodes;
  \<^item> \<open>render\<close>: \<^verbatim>\<open>str()\<close> of a float, list or dict;
  \<^item> \<open>power\<close>: Python's \<^verbatim>\<open>**\<close> outside integer base with natural exponent;
  \<^item> \<open>int_of_str\<close>: \<^verbatim>\<open>int()\<close> of a string;
  \<^item> \<open>mainloop\<close>: the GUI main loop entered at the end of caml-code's \<^verbatim>\<open>execute\<close>.
\<close>

record host =
  callables :: "string \<rightharpoonup> (val list \<Rightarrow> interp \<Rightarrow> result)"
  external :: "node \<Rightarrow> interp \<Rightarrow> result"
  render :: "interp \<Rightarrow> val \<Rightarrow> string"
  power :: "val \<Rightarrow> val \<Rightarrow> error + val"
  int_of_str :: "string \<Rightarrow> int option"
  mainloop :: "interp \<Rightarrow> result"

definition init_interp :: "in_event list \<Rightarrow> interp" where
  "init_interp inp =
     \<lparr>variables = Map.empty, funcs = Map.empty, lists = Map.empty, dicts = Map.empty,
      modules = Map.empty, call_stack = [], list_heap = (\<lambda>_. []), list_next = 0,
      dict_heap = (\<lambda>_. []), dict_next = 0, stdout = [], stdin = inp\<rparr>"

section \<open>Evaluator utilities\<close>

text \<open>\<^verbatim>\<open>_resolve_value\<close> (python_code/interpreter.py 347-362, caml-code/interpreter.py
  407-423): the two copies test the namespaces in the same order. The caml-code copy's
  first branch (a nested call) is taken by \<open>DCall\<close> in the Display handler below.\<close>

definition resolve_value :: "interp \<Rightarrow> val \<Rightarrow> val" where
  "resolve_value s v =
     (case v of
        VStr x \<Rightarrow>
          (case lists s (Some x) of
             Some a \<Rightarrow> VList a
           | None \<Rightarrow>
               (case dicts s (Some x) of
                  Some d \<Rightarrow> VDict d
                | None \<Rightarrow>
                    (case variables s (Some x) of
                       Some w \<Rightarrow> w
                     | None \<Rightarrow> VStr x)))
      | _ \<Rightarrow> v)"

text \<open>The order the claim words: scalars first, then lists, then dicts. It is compared
  with \<open>resolve_value\<close> below; the code does not use it.\<close>

definition resolve_scalar_first :: "interp \<Rightarrow> val \<Rightarrow> val" where
  "resolve_scalar_first s v =
     (case v of
        VStr x \<Rightarrow>
          (case variables s (Some x) of
             Some w \<Rightarrow> w
           | None \<Rightarrow>
               (case lists s (Some x) of
                  Some a \<Rightarrow> VList a
                | None \<Rightarrow>
                    (case dicts s (Some x) of
                       Some d \<Rightarrow> VDict d
                     | None \<Rightarrow> VStr x)))
      | _ \<Rightarrow> v)"

definition get_var :: "interp \<Rightarrow> name \<Rightarrow> val" where
  "get_var s n = (case variables s n of Some v \<Rightarrow> v | None \<Rightarrow> VNone)"

definition set_var :: "name \<Rightarrow> val \<Rightarrow> interp \<Rightarrow> interp" where
  "set_var n v s = s\<lparr>variables := (variables s)(n \<mapsto> resolve_value s v)\<rparr>"

text \<open>Python truthiness, \<^verbatim>\<open>bool(v)\<close>.\<close>

definition truthy :: "interp \<Rightarrow> val \<Rightarrow> bool" where
  "truthy s v =
     (case v of
        VNone \<Rightarrow> False
      | VInt i \<Rightarrow> i \<noteq> 0
      | VFloat r \<Rightarrow> r \<noteq> 0
      | VStr x \<Rightarrow> x \<noteq> []
      | VList a \<Rightarrow> list_heap s a \<noteq> []
      | VDict d \<Rightarrow> dict_heap s d \<noteq> [])"

definition evaluate_condition :: "interp \<Rightarrow> val \<Rightarrow> bool" where
  "evaluate_condition s c = truthy s (resolve_value s c)"

text \<open>\<^verbatim>\<open>str(v)\<close>: decimal digits for an integer, the text itself for a string.\<close>

fun digits :: "nat \<Rightarrow> string" where
  "digits n = (if n < 10 then [''0123456789'' ! n] else digits (n div 10) @ [''0123456789'' ! (n mod 10)])"

declare digits.simps [simp del]

definition str_int :: "int \<Rightarrow> string" where
  "str_int i = (if i < 0 then CHR ''-'' # digits (nat (- i)) else digits (nat i))"

definition py_str :: "host \<Rightarrow> interp \<Rightarrow> val \<Rightarrow> string" where
  "py_str H s v =
     (case v of
        VNone \<Rightarrow> ''None''
      | VInt i \<Rightarrow> str_int i
      | VStr x \<Rightarrow> x
      | _ \<Rightarrow> render H s v)"

text \<open>The f-string \<^verbatim>\<open>f"**{out}**"\<close>.\<close>

definition bold_str :: "host \<Rightarrow> interp \<Rightarrow> val \<Rightarrow> val" where
  "bold_str H s v = VStr (''**'' @ py_str H s v @ ''**'')"

text \<open>\<^verbatim>\<open>print(out)\<close> writes the text and a newline.\<close>

definition py_print :: "host \<Rightarrow> val \<Rightarrow> interp \<Rightarrow> interp" where
  "py_print H v s = s\<lparr>stdout := stdout s @ [py_str H s v @ ''\<newline>'']\<rparr>"

text \<open>\<^verbatim>\<open>input(prompt)\<close> writes the prompt, then reads one event of the input stream.\<close>

datatype read_result = GotLine string | KeyboardInterrupt | EndOfFile

definition py_input :: "string \<Rightarrow> interp \<Rightarrow> read_result \<times> interp" where
  "py_input p s =
     (let s1 = s\<lparr>stdout := stdout s @ [p]\<rparr> in
      case stdin s of
        [] \<Rightarrow> (EndOfFile, s1)
      | Line l # rest \<Rightarrow> (GotLine l, s1\<lparr>stdin := rest\<rparr>)
      | Interrupt # rest \<Rightarrow> (KeyboardInterrupt, s1\<lparr>stdin := rest\<rparr>))"

text \<open>\<^verbatim>\<open>visit_InteractNode\<close> (python_code/interpreter.py 33-40, caml-code 45-52; the
  two copies are the same): only \<^verbatim>\<open>KeyboardInterrupt\<close> is caught.\<close>

definition visit_InteractNode :: "host \<Rightarrow> val \<Rightarrow> bool \<Rightarrow> interp \<Rightarrow> result" where
  "visit_InteractNode H prompt bold s =
     (let p0 = resolve_value s prompt;
          p = (if bold then bold_str H s p0 else p0)
      in case py_input (py_str H s p @ '': '') s of
           (GotLine l, s') \<Rightarrow> Ok (VStr l) s'
         | (KeyboardInterrupt, s') \<Rightarrow> Ok (VStr []) s'
         | (EndOfFile, s') \<Rightarrow> Err EOFError s')"

section \<open>Python operators used by the handlers\<close>

definition is_number :: "val \<Rightarrow> bool" where
  "is_number v = (case v of VInt _ \<Rightarrow> True | VFloat _ \<Rightarrow> True | _ \<Rightarrow> False)"

definition num :: "val \<Rightarrow> real" where
  "num v = (case v of VInt i \<Rightarrow> real_of_int i | VFloat r \<Rightarrow> r | _ \<Rightarrow> 0)"

definition is_int :: "val \<Rightarrow> bool" where
  "is_int v = (case v of VInt _ \<Rightarrow> True | _ \<Rightarrow> False)"

definition int_of :: "val \<Rightarrow> int" where
  "int_of v = (case v of VInt i \<Rightarrow> i | _ \<Rightarrow> 0)"

text \<open>A new list object.\<close>

definition alloc_list :: "val list \<Rightarrow> interp \<Rightarrow> nat \<times> interp" where
  "alloc_list xs s =
     (list_next s, s\<lparr>list_heap := (list_heap s)(list_next s := xs), list_next := Suc (list_next s)\<rparr>)"

definition alloc_dict :: "(string \<times> val) list \<Rightarrow> interp \<Rightarrow> nat \<times> interp" where
  "alloc_dict d s =
     (dict_next s, s\<lparr>dict_heap := (dict_heap s)(dict_next s := d), dict_next := Suc (dict_next s)\<rparr>)"

text \<open>\<^verbatim>\<open>a + b\<close>: numbers add, strings and lists concatenate, anything else is a
  \<^verbatim>\<open>TypeError\<close>.\<close>

definition py_add :: "val \<Rightarrow> val \<Rightarrow> interp \<Rightarrow> result" where
  "py_add a b s =
     (if is_int a \<and> is_int b then Ok (VInt (int_of a + int_of b)) s
      else if is_number a \<and> is_number b then Ok (VFloat (num a + num b)) s
      else case (a, b) of
             (VStr x, VStr y) \<Rightarrow> Ok (VStr (x @ y)) s
           | (VList x, VList y) \<Rightarrow>
               (case alloc_list (list_heap s x @ list_heap s y) s of (r, s') \<Rightarrow> Ok (VList r) s')
           | _ \<Rightarrow> Err TypeError s)"

definition py_sub :: "val \<Rightarrow> val \<Rightarrow> interp \<Rightarrow> result" where
  "py_sub a b s =
     (if is_int a \<and> is_int b then Ok (VInt (int_of a - int_of b)) s
      else if is_number a \<and> is_number b then Ok (VFloat (num a - num b)) s
      else Err TypeError s)"

text \<open>\<^verbatim>\<open>a * b\<close>: an integer also repeats a string or a list.\<close>

definition py_mul :: "val \<Rightarrow> val \<Rightarrow> interp \<Rightarrow> result" where
  "py_mul a b s =
     (if is_int a \<and> is_int b then Ok (VInt (int_of a * int_of b)) s
      else if is_number a \<and> is_number b then Ok (VFloat (num a * num b)) s
      else case (a, b) of
             (VInt n, VStr x) \<Rightarrow> Ok (VStr (concat (replicate (nat n) x))) s
           | (VStr x, VInt n) \<Rightarrow> Ok (VStr (concat (replicate (nat n) x))) s
           | (VInt n, VList x) \<Rightarrow>
               (case alloc_list (concat (replicate (nat n) (list_heap s x))) s of
                  (r, s') \<Rightarrow> Ok (VList r) s')
           | (VList x, VInt n) \<Rightarrow>
               (case alloc_list (concat (replicate (nat n) (list_heap s x))) s of
                  (r, s') \<Rightarrow> Ok (VList r) s')
           | _ \<Rightarrow> Err TypeError s)"

text \<open>\<^verbatim>\<open>a / b\<close>: true division; a zero divisor raises \<^verbatim>\<open>ZeroDivisionError\<close>.\<close>

definition py_truediv :: "val \<Rightarrow> val \<Rightarrow> interp \<Rightarrow> result" where
  "py_truediv a b s =
     (if is_number a \<and> is_number b then
        (if num b = 0 then Err ZeroDivisionError s else Ok (VFloat (num a / num b)) s)
      else Err TypeError s)"

definition py_pow :: "host \<Rightarrow> val \<Rightarrow> val \<Rightarrow> interp \<Rightarrow> result" where
  "py_pow H a b s =
     (if is_int a \<and> is_int b \<and> 0 \<le> int_of b then Ok (VInt (int_of a ^ nat (int_of b))) s
      else if is_number a \<and> is_number b then
        (case power H a b of Inl e \<Rightarrow> Err e s | Inr v \<Rightarrow> Ok v s)
      else Err TypeError s)"

text \<open>\<^verbatim>\<open>int(v)\<close>: a float is truncated toward zero.\<close>

definition py_int :: "host \<Rightarrow> val \<Rightarrow> error + int" where
  "py_int H v =
     (case v of
        VInt i \<Rightarrow> Inr i
      | VFloat r \<Rightarrow> Inr (if 0 \<le> r then \<lfloor>r\<rfloor> else \<lceil>r\<rceil>)
      | VStr x \<Rightarrow> (case int_of_str H x of Some i \<Rightarrow> Inr i | None \<Rightarrow> Inl ValueError)
      | _ \<Rightarrow> Inl TypeError)"

text \<open>\<^verbatim>\<open>d[k] = v\<close> on an insertion-ordered dict.\<close>

fun dict_set :: "string \<Rightarrow> val \<Rightarrow> (string \<times> val) list \<Rightarrow> (string \<times> val) list" where
  "dict_set k v [] = [(k, v)]"
| "dict_set k v (p # ps) = (if fst p = k then (k, v) # ps else p # dict_set k v ps)"

section \<open>Handlers that the two interpreters share\<close>

text \<open>\<^verbatim>\<open>visit_BlockVarNode\<close>.\<close>

definition visit_BlockVarNode :: "name \<Rightarrow> interp \<Rightarrow> result" where
  "visit_BlockVarNode n s = Ok VNone (s\<lparr>variables := (variables s)(n := None)\<rparr>)"

text \<open>\<^verbatim>\<open>visit_FunctionDefNode\<close> stores the node under its name.\<close>

definition visit_FunctionDefNode :: "name \<Rightarrow> string list \<Rightarrow> node list \<Rightarrow> interp \<Rightarrow> result" where
  "visit_FunctionDefNode n ps body s = Ok VNone (s\<lparr>funcs := (funcs s)(n \<mapsto> (n, ps, body))\<rparr>)"

definition visit_FunctionAbbrevNode :: "name \<Rightarrow> name \<Rightarrow> interp \<Rightarrow> result" where
  "visit_FunctionAbbrevNode orig new s =
     (case funcs s orig of
        Some f \<Rightarrow> Ok VNone (s\<lparr>funcs := (funcs s)(new \<mapsto> f)\<rparr>)
      | None \<Rightarrow> Ok VNone s)"

text \<open>\<^verbatim>\<open>visit_ListNode\<close>: the resolved elements become a new list object.\<close>

definition visit_ListNode :: "name \<Rightarrow> val list \<Rightarrow> interp \<Rightarrow> result" where
  "visit_ListNode n es s =
     (case alloc_list (map (resolve_value s) es) s of
        (a, s') \<Rightarrow> Ok VNone (s'\<lparr>lists := (lists s')(n \<mapsto> a)\<rparr>))"

text \<open>\<^verbatim>\<open>visit_ListAddNode\<close> (python_code/interpreter.py 191-195, caml-code 194-198; the
  two copies are the same).\<close>

definition visit_ListAddNode :: "name \<Rightarrow> val \<Rightarrow> interp \<Rightarrow> result" where
  "visit_ListAddNode n value s =
     (let v = resolve_value s value;
          s1 = (if n \<in> dom (lists s) then s
                else case alloc_list [] s of (a, s') \<Rightarrow> s'\<lparr>lists := (lists s')(n \<mapsto> a)\<rparr>);
          a = the (lists s1 n)
      in Ok VNone (s1\<lparr>list_heap := (list_heap s1)(a := list_heap s1 a @ [v])\<rparr>))"

definition visit_DictionaryNode :: "name \<Rightarrow> (string \<times> val) list \<Rightarrow> interp \<Rightarrow> result" where
  "visit_DictionaryNode n es s =
     (case alloc_dict (foldl (\<lambda>d (k, v). dict_set k (resolve_value s v) d) [] es) s of
        (a, s') \<Rightarrow> Ok VNone (s'\<lparr>dicts := (dicts s')(n \<mapsto> a)\<rparr>))"

text \<open>\<^verbatim>\<open>visit_GetLengthNode\<close>: \<^verbatim>\<open>len\<close> of a string, list or dict; 0 when \<^verbatim>\<open>len\<close> raises.\<close>

definition visit_GetLengthNode :: "val \<Rightarrow> interp \<Rightarrow> result" where
  "visit_GetLengthNode target s =
     (case resolve_value s target of
        VStr x \<Rightarrow> Ok (VInt (int (length x))) s
      | VList a \<Rightarrow> Ok (VInt (int (length (list_heap s a)))) s
      | VDict d \<Rightarrow> Ok (VInt (int (length (dict_heap s d)))) s
      | _ \<Rightarrow> Ok (VInt 0) s)"

definition visit_GetTypeNode :: "val \<Rightarrow> interp \<Rightarrow> result" where
  "visit_GetTypeNode target s =
     (case resolve_value s target of
        VNone \<Rightarrow> Ok (VStr ''null'') s
      | VInt _ \<Rightarrow> Ok (VStr ''int'') s
      | VFloat _ \<Rightarrow> Ok (VStr ''float'') s
      | VStr _ \<Rightarrow> Ok (VStr ''str'') s
      | VList _ \<Rightarrow> Ok (VStr ''list'') s
      | VDict _ \<Rightarrow> Ok (VStr ''dict'') s)"

definition visit_ImportNode :: "string list \<Rightarrow> name \<Rightarrow> interp \<Rightarrow> result" where
  "visit_ImportNode ms filename s = Ok VNone (s\<lparr>modules := (modules s)(filename \<mapsto> ms)\<rparr>)"

text \<open>The parameter bindings of a call: \<^verbatim>\<open>zip(func.args, node.args)\<close>, each argument
  resolved in the caller's state, a later duplicate name overwriting an earlier one.\<close>

definition bind_args :: "interp \<Rightarrow> string list \<Rightarrow> val list \<Rightarrow> (name \<rightharpoonup> val)" where
  "bind_args s ps as =
     foldl (\<lambda>m (p, a). m(Some p \<mapsto> resolve_value s a)) Map.empty (zip ps as)"

text \<open>\<^verbatim>\<open>globals().get(node.name) or locals().get(node.name)\<close>, when callable. The
  locals of the handler (\<^verbatim>\<open>self\<close>, \<^verbatim>\<open>node\<close>, \<^verbatim>\<open>func\<close>) are not callable.\<close>

definition find_builtin :: "host \<Rightarrow> name \<Rightarrow> (val list \<Rightarrow> interp \<Rightarrow> result) option" where
  "find_builtin H n = (case n of None \<Rightarrow> None | Some f \<Rightarrow> callables H f)"

section \<open>The python_code interpreter\<close>

text \<open>The arithmetic updates of python_code (interpreter.py 56-99) test the current value
  only; the operator itself rejects a non-numeric operand.\<close>

definition arith_update_py ::
  "(val \<Rightarrow> val \<Rightarrow> interp \<Rightarrow> result) \<Rightarrow> name \<Rightarrow> val \<Rightarrow> interp \<Rightarrow> result" where
  "arith_update_py opr n value s =
     (let v = resolve_value s value; cur = get_var s n in
      if is_number cur then
        (case opr cur v s of
           Ok r s' \<Rightarrow> Ok VNone (set_var n r s')
         | e \<Rightarrow> e)
      else Err TypeError s)"

text \<open>The iterable of \<^verbatim>\<open>visit_ForEachNode\<close> (python_code/interpreter.py 177):
  \<^verbatim>\<open>self.lists.get(it) or self._get_var(it) or []\<close>. \<open>None\<close> stands for the fresh empty
  list of the last alternative.\<close>

definition foreach_iterable_py :: "interp \<Rightarrow> name \<Rightarrow> val option" where
  "foreach_iterable_py s it =
     (let l = (case lists s it of Some a \<Rightarrow> VList a | None \<Rightarrow> VNone) in
      if truthy s l then Some l
      else if truthy s (get_var s it) then Some (get_var s it)
      else None)"

text \<open>The handlers without a nested statement sequence.\<close>

definition visit_leaf_py :: "host \<Rightarrow> node \<Rightarrow> interp \<Rightarrow> result" where
  "visit_leaf_py H nd s =
     (case nd of
        DisplayNode (DVal v) bold \<Rightarrow>
          (let r = resolve_value s v;
               out = (if bold then bold_str H s r else r)
           in Ok VNone (py_print H out s))
      | InteractNode p bold \<Rightarrow> visit_InteractNode H p bold s
      | AssignNode n v \<Rightarrow> Ok VNone (set_var n v s)
      | SetNode n v \<Rightarrow> Ok VNone (set_var n v s)
      | ChangeNode n v \<Rightarrow> Ok VNone (set_var n v s)
      | IncreaseNode n v \<Rightarrow> arith_update_py py_add n v s
      | DecreaseNode n v \<Rightarrow> arith_update_py py_sub n v s
      | MultiplyNode n v \<Rightarrow> arith_update_py py_mul n v s
      | DivideNode n v \<Rightarrow> arith_update_py py_truediv n v s
      | ExponentiateNode n v \<Rightarrow> arith_update_py (py_pow H) n v s
      | BlockVarNode n \<Rightarrow> visit_BlockVarNode n s
      | FunctionDefNode n ps body \<Rightarrow> visit_FunctionDefNode n ps body s
      | FunctionAbbrevNode orig new \<Rightarrow> visit_FunctionAbbrevNode orig new s
      | ListNode n es \<Rightarrow> visit_ListNode n es s
      | ListAddNode n v \<Rightarrow> visit_ListAddNode n v s
      | DictionaryNode n es \<Rightarrow> visit_DictionaryNode n es s
      | GetLengthNode t \<Rightarrow> visit_GetLengthNode t s
      | GetTypeNode t \<Rightarrow> visit_GetTypeNode t s
      | ImportNode ms f \<Rightarrow> visit_ImportNode ms f s
      | ExportNode ms \<Rightarrow> Ok VNone s
      | ButtonNode n p body \<Rightarrow> Err NoVisitMethod s
      | _ \<Rightarrow> external H nd s)"

section \<open>Statement sequences and loops\<close>

text \<open>
  The loops below are written the same way in both interpreters; \<open>v\<close> is the
  dispatcher \<^verbatim>\<open>self.visit\<close>. An exception raised by a statement ends the loop.
\<close>

text \<open>\<^verbatim>\<open>for stmt in body: self.visit(stmt)\<close>.\<close>

fun exec_body :: "(node \<Rightarrow> interp \<Rightarrow> result) \<Rightarrow> node list \<Rightarrow> interp \<Rightarrow> result" where
  "exec_body v [] s = Ok VNone s"
| "exec_body v (x # xs) s =
     (case v x s of
        Ok _ s' \<Rightarrow> exec_body v xs s'
      | r \<Rightarrow> r)"

text \<open>The body of a user function: the result is that of the last statement that
  returned something other than \<^verbatim>\<open>None\<close>.\<close>

fun call_body :: "(node \<Rightarrow> interp \<Rightarrow> result) \<Rightarrow> node list \<Rightarrow> val \<Rightarrow> interp \<Rightarrow> result" where
  "call_body v [] ret s = Ok ret s"
| "call_body v (x # xs) ret s =
     (case v x s of
        Ok res s' \<Rightarrow> call_body v xs (if res \<noteq> VNone then res else ret) s'
      | r \<Rightarrow> r)"

text \<open>\<^verbatim>\<open>for _ in range(times)\<close>.\<close>

fun repeat_loop :: "(node \<Rightarrow> interp \<Rightarrow> result) \<Rightarrow> nat \<Rightarrow> node list \<Rightarrow> interp \<Rightarrow> result" where
  "repeat_loop v 0 body s = Ok VNone s"
| "repeat_loop v (Suc k) body s =
     (case exec_body v body s of
        Ok _ s' \<Rightarrow> repeat_loop v k body s'
      | r \<Rightarrow> r)"

text \<open>\<^verbatim>\<open>while not self._evaluate_condition(node.condition)\<close>: the loop need not end, so
  its iterations are counted against the fuel \<open>n\<close>.\<close>

fun dountil_loop ::
  "(node \<Rightarrow> interp \<Rightarrow> result) \<Rightarrow> nat \<Rightarrow> val \<Rightarrow> node list \<Rightarrow> interp \<Rightarrow> result" where
  "dountil_loop v 0 c body s = Timeout"
| "dountil_loop v (Suc n) c body s =
     (if evaluate_condition s c then Ok VNone s
      else case exec_body v body s of
             Ok _ s' \<Rightarrow> dountil_loop v n c body s'
           | r \<Rightarrow> r)"

text \<open>\<^verbatim>\<open>for item in iterable\<close> over the list object at address \<open>a\<close>: Python's list
  iterator keeps an index \<open>i\<close> and reads the live object, which the body may extend; the
  iterations are counted against the fuel \<open>n\<close>.\<close>

fun foreach_loop ::
  "(node \<Rightarrow> interp \<Rightarrow> result) \<Rightarrow> nat \<Rightarrow> name \<Rightarrow> node list \<Rightarrow> nat \<Rightarrow> nat \<Rightarrow> interp \<Rightarrow> result" where
  "foreach_loop v 0 var body a i s = Timeout"
| "foreach_loop v (Suc n) var body a i s =
     (if i < length (list_heap s a) then
        (case exec_body v body (set_var var (list_heap s a ! i) s) of
           Ok _ s' \<Rightarrow> foreach_loop v n var body a (Suc i) s'
         | r \<Rightarrow> r)
      else Ok VNone s)"

section \<open>The python_code dispatcher\<close>

text \<open>\<^verbatim>\<open>visit_FunctionCallNode\<close> (python_code/interpreter.py 112-140).\<close>

definition visit_FunctionCallNode_py ::
  "host \<Rightarrow> (node \<Rightarrow> interp \<Rightarrow> result) \<Rightarrow> name \<Rightarrow> val list \<Rightarrow> interp \<Rightarrow> result" where
  "visit_FunctionCallNode_py H v f as s =
     (case funcs s f of
        None \<Rightarrow>
          (case find_builtin H f of
             Some b \<Rightarrow> b (map (resolve_value s) as) s
           | None \<Rightarrow> Err (FunctionNotDefined f) s)
      | Some (fname, ps, body) \<Rightarrow>
          (let old_vars = variables s;
               s1 = s\<lparr>variables := old_vars ++ bind_args s ps as,
                      call_stack := call_stack s @ [fname]\<rparr>
           in case call_body v body VNone s1 of
                Ok ret s2 \<Rightarrow>
                  Ok ret (s2\<lparr>call_stack := butlast (call_stack s2), variables := old_vars\<rparr>)
              | r \<Rightarrow> r))"

text \<open>\<^verbatim>\<open>visit_ForEachNode\<close> (python_code/interpreter.py 176-183).\<close>

definition visit_ForEachNode_py ::
  "(node \<Rightarrow> interp \<Rightarrow> result) \<Rightarrow> nat \<Rightarrow> name \<Rightarrow> name \<Rightarrow> node list \<Rightarrow> interp \<Rightarrow> result" where
  "visit_ForEachNode_py v n var it body s =
     (case foreach_iterable_py s it of
        None \<Rightarrow> Ok VNone s
      | Some (VList a) \<Rightarrow> foreach_loop v n var body a 0 s
      | Some _ \<Rightarrow> Err TypeError s)"

text \<open>\<^verbatim>\<open>visit_RepeatNode\<close>.\<close>

definition visit_RepeatNode ::
  "host \<Rightarrow> (node \<Rightarrow> interp \<Rightarrow> result) \<Rightarrow> val \<Rightarrow> node list \<Rightarrow> interp \<Rightarrow> result" where
  "visit_RepeatNode H v t body s =
     (case py_int H (resolve_value s t) of
        Inl e \<Rightarrow> Err e s
      | Inr k \<Rightarrow> repeat_loop v (nat k) body s)"

text \<open>\<^verbatim>\<open>visit_IfNode\<close> and \<^verbatim>\<open>visit_OrIfNode\<close> (python_code/interpreter.py 148-158,
  caml-code 150-158): two handlers with the same body.\<close>

definition visit_IfNode :: "(node \<Rightarrow> interp \<Rightarrow> result) \<Rightarrow> val \<Rightarrow> node list \<Rightarrow> interp \<Rightarrow> result" where
  "visit_IfNode v c body s = (if evaluate_condition s c then exec_body v body s else Ok VNone s)"

definition visit_OrIfNode :: "(node \<Rightarrow> interp \<Rightarrow> result) \<Rightarrow> val \<Rightarrow> node list \<Rightarrow> interp \<Rightarrow> result" where
  "visit_OrIfNode v c body s = (if evaluate_condition s c then exec_body v body s else Ok VNone s)"

text \<open>One dispatch of \<^verbatim>\<open>visit\<close>: \<open>v\<close> visits the child statements, \<open>n\<close> is the fuel left
  for the loops of this statement.\<close>

definition visit_step_py ::
  "host \<Rightarrow> (node \<Rightarrow> interp \<Rightarrow> result) \<Rightarrow> nat \<Rightarrow> node \<Rightarrow> interp \<Rightarrow> result" where
  "visit_step_py H v n nd s =
     (case nd of
        FunctionCallNode f as \<Rightarrow> visit_FunctionCallNode_py H v f as s
      | IfNode c body \<Rightarrow> visit_IfNode v c body s
      | OrIfNode c body \<Rightarrow> visit_OrIfNode v c body s
      | OtherwiseNode body \<Rightarrow> exec_body v body s
      | RepeatNode t body \<Rightarrow> visit_RepeatNode H v t body s
      | DoUntilNode c body \<Rightarrow> dountil_loop v n c body s
      | ForEachNode var it body \<Rightarrow> visit_ForEachNode_py v n var it body s
      | _ \<Rightarrow> visit_leaf_py H nd s)"

text \<open>
  \<^verbatim>\<open>visit\<close> with evaluation fuel: a \<^verbatim>\<open>Do until\<close> loop, a \<^verbatim>\<open>For each\<close> loop over a list
  that its body extends, or a recursive user function need not terminate. Fuel \<open>n\<close>
  bounds the nesting depth of \<^verbatim>\<open>visit\<close> calls and the iterations of those loops.
\<close>

primrec visit_py :: "host \<Rightarrow> nat \<Rightarrow> node \<Rightarrow> interp \<Rightarrow> result" where
  "visit_py H 0 = (\<lambda>nd s. Timeout)"
| "visit_py H (Suc n) = visit_step_py H (visit_py H n) n"

text \<open>\<^verbatim>\<open>execute\<close> (python_code/interpreter.py 382-385).\<close>

definition execute_py :: "host \<Rightarrow> nat \<Rightarrow> node list \<Rightarrow> interp \<Rightarrow> result" where
  "execute_py H n ast s = exec_body (visit_py H n) ast s"

section \<open>The caml-code dispatcher\<close>

text \<open>The arithmetic updates of caml-code (interpreter.py 65-103) require both the
  current value and the operand to be numbers.\<close>

definition arith_update_caml ::
  "(val \<Rightarrow> val \<Rightarrow> interp \<Rightarrow> result) \<Rightarrow> name \<Rightarrow> val \<Rightarrow> interp \<Rightarrow> result" where
  "arith_update_caml opr n value s =
     (let cur = get_var s n; v = resolve_value s value in
      if is_number cur \<and> is_number v then
        (case opr cur v s of
           Ok r s' \<Rightarrow> Ok VNone (set_var n r s')
         | e \<Rightarrow> e)
      else Err TypeError s)"

text \<open>The tail of \<^verbatim>\<open>visit_DisplayNode\<close> of caml-code, which returns what it printed.\<close>

definition display_out_caml :: "host \<Rightarrow> val \<Rightarrow> bool \<Rightarrow> interp \<Rightarrow> result" where
  "display_out_caml H r bold s =
     (let out = (if bold then bold_str H s r else r) in Ok out (py_print H out s))"

text \<open>\<^verbatim>\<open>visit_FunctionCallNode\<close> (caml-code/interpreter.py 114-142): an unmatched name
  is returned as it is.\<close>

definition name_value :: "name \<Rightarrow> val" where
  "name_value n = (case n of None \<Rightarrow> VNone | Some x \<Rightarrow> VStr x)"

definition visit_FunctionCallNode_caml ::
  "host \<Rightarrow> (node \<Rightarrow> interp \<Rightarrow> result) \<Rightarrow> name \<Rightarrow> val list \<Rightarrow> interp \<Rightarrow> result" where
  "visit_FunctionCallNode_caml H v f as s =
     (case funcs s f of
        Some (fname, ps, body) \<Rightarrow>
          (let old_vars = variables s;
               s1 = s\<lparr>variables := variables s ++ bind_args s ps as,
                      call_stack := call_stack s @ [fname]\<rparr>
           in case call_body v body VNone s1 of
                Ok ret s2 \<Rightarrow>
                  Ok ret (s2\<lparr>call_stack := butlast (call_stack s2), variables := old_vars\<rparr>)
              | r \<Rightarrow> r)
      | None \<Rightarrow>
          (case find_builtin H f of
             Some b \<Rightarrow> b (map (resolve_value s) as) s
           | None \<Rightarrow> Ok (name_value f) s))"

text \<open>The iterable of \<^verbatim>\<open>visit_ForEachNode\<close> (caml-code/interpreter.py 177-181); \<open>None\<close>
  stands for the fresh empty list of \<^verbatim>\<open>or []\<close>.\<close>

definition foreach_iterable_caml :: "interp \<Rightarrow> name \<Rightarrow> val option" where
  "foreach_iterable_caml s it =
     (case lists s it of
        Some a \<Rightarrow> Some (VList a)
      | None \<Rightarrow> (if truthy s (get_var s it) then Some (get_var s it) else None))"

definition visit_ForEachNode_caml ::
  "(node \<Rightarrow> interp \<Rightarrow> result) \<Rightarrow> nat \<Rightarrow> name \<Rightarrow> name \<Rightarrow> node list \<Rightarrow> interp \<Rightarrow> result" where
  "visit_ForEachNode_caml v n var it body s =
     (case foreach_iterable_caml s it of
        None \<Rightarrow> Ok VNone s
      | Some (VList a) \<Rightarrow> foreach_loop v n var body a 0 s
      | Some _ \<Rightarrow> Err TypeError s)"

definition visit_leaf_caml :: "host \<Rightarrow> node \<Rightarrow> interp \<Rightarrow> result" where
  "visit_leaf_caml H nd s =
     (case nd of
        DisplayNode (DVal v) bold \<Rightarrow> display_out_caml H (resolve_value s v) bold s
      | InteractNode p bold \<Rightarrow> visit_InteractNode H p bold s
      | AssignNode n v \<Rightarrow> Ok VNone (set_var n v s)
      | SetNode n v \<Rightarrow> Ok VNone (set_var n v s)
      | ChangeNode n v \<Rightarrow> Ok VNone (set_var n v s)
      | IncreaseNode n v \<Rightarrow> arith_update_caml py_add n v s
      | DecreaseNode n v \<Rightarrow> arith_update_caml py_sub n v s
      | MultiplyNode n v \<Rightarrow> arith_update_caml py_mul n v s
      | DivideNode n v \<Rightarrow> arith_update_caml py_truediv n v s
      | ExponentiateNode n v \<Rightarrow> arith_update_caml (py_pow H) n v s
      | BlockVarNode n \<Rightarrow> visit_BlockVarNode n s
      | FunctionDefNode n ps body \<Rightarrow> visit_FunctionDefNode n ps body s
      | FunctionAbbrevNode orig new \<Rightarrow> visit_FunctionAbbrevNode orig new s
      | ListNode n es \<Rightarrow> visit_ListNode n es s
      | ListAddNode n v \<Rightarrow> visit_ListAddNode n v s
      | DictionaryNode n es \<Rightarrow> visit_DictionaryNode n es s
      | GetLengthNode t \<Rightarrow> visit_GetLengthNode t s
      | GetTypeNode t \<Rightarrow> visit_GetTypeNode t s
      | ImportNode ms f \<Rightarrow> visit_ImportNode ms f s
      | ExportNode ms \<Rightarrow> Ok VNone s
      | _ \<Rightarrow> external H nd s)"

definition visit_step_caml ::
  "host \<Rightarrow> (node \<Rightarrow> interp \<Rightarrow> result) \<Rightarrow> nat \<Rightarrow> node \<Rightarrow> interp \<Rightarrow> result" where
  "visit_step_caml H v n nd s =
     (case nd of
        DisplayNode (DCall f as) bold \<Rightarrow>
          (case v (FunctionCallNode f as) s of
             Ok r s' \<Rightarrow> display_out_caml H r bold s'
           | e \<Rightarrow> e)
      | FunctionCallNode f as \<Rightarrow> visit_FunctionCallNode_caml H v f as s
      | IfNode c body \<Rightarrow> visit_IfNode v c body s
      | OrIfNode c body \<Rightarrow> visit_OrIfNode v c body s
      | OtherwiseNode body \<Rightarrow> exec_body v body s
      | RepeatNode t body \<Rightarrow> visit_RepeatNode H v t body s
      | DoUntilNode c body \<Rightarrow> dountil_loop v n c body s
      | ForEachNode var it body \<Rightarrow> visit_ForEachNode_caml v n var it body s
      | _ \<Rightarrow> visit_leaf_caml H nd s)"

primrec visit_caml :: "host \<Rightarrow> nat \<Rightarrow> node \<Rightarrow> interp \<Rightarrow> result" where
  "visit_caml H 0 = (\<lambda>nd s. Timeout)"
| "visit_caml H (Suc n) = visit_step_caml H (visit_caml H n) n"

text \<open>\<^verbatim>\<open>execute\<close> (caml-code/interpreter.py 442-460): after the statements, the GUI
  main loop of the host.\<close>

definition execute_caml :: "host \<Rightarrow> nat \<Rightarrow> node list \<Rightarrow> interp \<Rightarrow> result" where
  "execute_caml H n ast s =
     (case exec_body (visit_caml H n) ast s of
        Ok _ s' \<Rightarrow> mainloop H s'
      | r \<Rightarrow> r)"

section \<open>The module namespace\<close>

text \<open>
  Both interpreters start with \<^verbatim>\<open>from builtins import *\<close>, and \<^verbatim>\<open>visit_FunctionCallNode\<close>
  looks a name that is no user function up with \<^verbatim>\<open>globals().get(name)\<close>. Python resolves
  the module name \<^verbatim>\<open>builtins\<close> to its own built-in module, which is loaded before any file
  is searched for; the file \<^verbatim>\<open>python_code/builtins.py\<close> is therefore never imported, and
  caml-code has no file of that name. The lookup finds the functions of Python's
  built-in module (\<^verbatim>\<open>len\<close>, \<^verbatim>\<open>abs\<close>, \<^verbatim>\<open>print\<close>, ...) and finds none of \<^verbatim>\<open>add\<close>, \<^verbatim>\<open>subtract\<close>,
  \<^verbatim>\<open>multiply\<close>, \<^verbatim>\<open>divide\<close>, \<^verbatim>\<open>get_length\<close>.

  Two functions of the built-in module, on the values of this embedding: \<^verbatim>\<open>len(x)\<close> and
  \<^verbatim>\<open>abs(x)\<close>. Each takes exactly one argument; any other call is a \<^verbatim>\<open>TypeError\<close>.
\<close>

definition py_len :: "val list \<Rightarrow> interp \<Rightarrow> result" where
  "py_len args s =
     (case args of
        [VStr x] \<Rightarrow> Ok (VInt (int (length x))) s
      | [VList a] \<Rightarrow> Ok (VInt (int (length (list_heap s a)))) s
      | [VDict d] \<Rightarrow> Ok (VInt (int (length (dict_heap s d)))) s
      | _ \<Rightarrow> Err TypeError s)"

definition py_abs :: "val list \<Rightarrow> interp \<Rightarrow> result" where
  "py_abs args s =
     (case args of
        [VInt i] \<Rightarrow> Ok (VInt \<bar>i\<bar>) s
      | [VFloat r] \<Rightarrow> Ok (VFloat \<bar>r\<bar>) s
      | _ \<Rightarrow> Err TypeError s)"

text \<open>The part of the module namespace that is represented: the two functions above.
  The names that the real namespace binds to another callable (the rest of the
  built-in module, the node classes) are not in the table.\<close>

definition module_namespace :: "string \<rightharpoonup> (val list \<Rightarrow> interp \<Rightarrow> result)" where
  "module_namespace = [''len'' \<mapsto> py_len, ''abs'' \<mapsto> py_abs]"

text \<open>A host for running examples: the table above, no rendering of floats and
  containers, no GUI. An external handler reports \<^verbatim>\<open>NoVisitMethod\<close>. It stands for the
  real namespace on the names of the table and on every name that the real namespace
  binds to no callable, such as \<^verbatim>\<open>add\<close> or \<^verbatim>\<open>foo\<close>.\<close>

definition plain_host :: host where
  "plain_host =
     \<lparr>callables = module_namespace,
      external = (\<lambda>nd s. Err NoVisitMethod s),
      render = (\<lambda>s v. ''?''),
      power = (\<lambda>a b. Inl ValueError),
      int_of_str = (\<lambda>x. None),
      mainloop = (\<lambda>s. Ok VNone s)\<rparr>"

text \<open>\<^verbatim>\<open>add\<close> of \<^verbatim>\<open>python_code/builtins.py\<close>, the file that the comment in
  \<^verbatim>\<open>visit_FunctionCallNode\<close> names (\<^verbatim>\<open>maybe built-in function in builtins.py\<close>) and that
  the import does not reach. A call with the wrong number of arguments is a
  \<^verbatim>\<open>TypeError\<close>.\<close>

definition builtin_add :: "val list \<Rightarrow> interp \<Rightarrow> result" where
  "builtin_add args s = (case args of [a, b] \<Rightarrow> py_add a b s | _ \<Rightarrow> Err TypeError s)"

section \<open>For each, as the specification words it\<close>

text \<open>The specification's wording of the loop, to be compared with \<open>foreach_loop\<close>:
  the loop variable is bound once per item of a given sequence of items, in order, and
  the body executes each time.\<close>

fun foreach_items ::
  "(node \<Rightarrow> interp \<Rightarrow> result) \<Rightarrow> name \<Rightarrow> node list \<Rightarrow> val list \<Rightarrow> interp \<Rightarrow> result" where
  "foreach_items v var body [] s = Ok VNone s"
| "foreach_items v var body (x # xs) s =
     (case exec_body v body (set_var var x s) of
        Ok _ s' \<Rightarrow> foreach_items v var body xs s'
      | r \<Rightarrow> r)"

text \<open>The proviso of that comparison, on the run itself: in the iteration over \<open>items\<close>
  from the state \<open>s\<close>, every execution of the body that returns leaves the list object
  at address \<open>a\<close> as it was before that execution. The body may change anything else,
  other list objects included.\<close>

fun leaves_list ::
  "(node \<Rightarrow> interp \<Rightarrow> result) \<Rightarrow> name \<Rightarrow> node list \<Rightarrow> nat \<Rightarrow> val list \<Rightarrow> interp \<Rightarrow> bool" where
  "leaves_list v var body a [] s = True"
| "leaves_list v var body a (x # xs) s =
     (case exec_body v body (set_var var x s) of
        Ok _ s' \<Rightarrow> list_heap s' a = list_heap s a \<and> leaves_list v var body a xs s'
      | _ \<Rightarrow> True)"

definition is_list :: "val \<Rightarrow> bool" where
  "is_list v = (case v of VList _ \<Rightarrow> True | _ \<Rightarrow> False)"

text \<open>A state for examples: the list \<open>mylist = [1, 2, 3]\<close>, the scalars \<open>n = 5\<close> and
  \<open>z = 0\<close>, and the scalar \<open>alias\<close> that holds the list object of \<open>mylist\<close> (\<open>set_var\<close>
  stores the list object when the assigned value names a list).\<close>

definition demo_state :: interp where
  "demo_state =
     (init_interp [])\<lparr>lists := [Some ''mylist'' \<mapsto> 0],
                       list_heap := (\<lambda>_. [])(0 := [VInt 1, VInt 2, VInt 3]),
                       list_next := 1,
                       variables := [Some ''n'' \<mapsto> VInt 5, Some ''z'' \<mapsto> VInt 0,
                                     Some ''alias'' \<mapsto> VList 0]\<rparr>"

section \<open>Tokens and lines\<close>

text \<open>\<^verbatim>\<open>Token = namedtuple('Token', ['type', 'value'])\<close>; a line is its indentation and its
  tokens. The lexers give an IDENTIFIER or STRING token a string value; where the parsers
  use such a value as a name, \<open>name_of\<close> reads it.\<close>

type_synonym token = "string \<times> val"

type_synonym line = "nat \<times> token list"

definition name_of :: "val \<Rightarrow> name" where
  "name_of v = (case v of VStr x \<Rightarrow> Some x | _ \<Rightarrow> None)"

definition str_of :: "val \<Rightarrow> string" where
  "str_of v = (case v of VStr x \<Rightarrow> x | _ \<Rightarrow> [])"

text \<open>\<^verbatim>\<open>any(tok.type == ty for tok in tokens)\<close>.\<close>

definition has_type :: "string \<Rightarrow> token list \<Rightarrow> bool" where
  "has_type ty toks = (ty \<in> set (map fst toks))"

definition has_any :: "string list \<Rightarrow> token list \<Rightarrow> bool" where
  "has_any tys toks = list_ex (\<lambda>t. fst t \<in> set tys) toks"

text \<open>The value of the first token whose type is one of \<open>tys\<close>, \<^verbatim>\<open>None\<close> if there is none
  (a \<^verbatim>\<open>for\<close> loop that assigns and breaks).\<close>

definition first_value :: "string list \<Rightarrow> token list \<Rightarrow> val" where
  "first_value tys toks =
     (case find (\<lambda>t. fst t \<in> set tys) toks of Some t \<Rightarrow> snd t | None \<Rightarrow> VNone)"

text \<open>The values of all tokens whose type is one of \<open>tys\<close>.\<close>

definition values_of :: "string list \<Rightarrow> token list \<Rightarrow> val list" where
  "values_of tys toks = map snd (filter (\<lambda>t. fst t \<in> set tys) toks)"

definition last_value :: "string list \<Rightarrow> token list \<Rightarrow> val" where
  "last_value tys toks = (case values_of tys toks of [] \<Rightarrow> VNone | vs \<Rightarrow> last vs)"

text \<open>The values of the tokens that directly follow a token of type \<open>m\<close> and whose own
  type satisfies \<open>ok\<close>: the scans \<^verbatim>\<open>tokens[i].type == m and i+1 < len(tokens) and ...\<close>.\<close>

fun values_after :: "string \<Rightarrow> (string \<Rightarrow> bool) \<Rightarrow> token list \<Rightarrow> val list" where
  "values_after m ok (t # u # ts) =
     (if fst t = m \<and> ok (fst u) then snd u # values_after m ok (u # ts)
      else values_after m ok (u # ts))"
| "values_after m ok ts = []"

definition value_after :: "string \<Rightarrow> (string \<Rightarrow> bool) \<Rightarrow> token list \<Rightarrow> val option" where
  "value_after m ok toks = (case values_after m ok toks of [] \<Rightarrow> None | v # _ \<Rightarrow> Some v)"

definition or_none :: "val option \<Rightarrow> val" where
  "or_none x = (case x of Some v \<Rightarrow> v | None \<Rightarrow> VNone)"

text \<open>The tokens after the first token of type \<open>ty\<close> (\<^verbatim>\<open>tokens[types.index(ty)+1:]\<close>).\<close>

definition after_type :: "string \<Rightarrow> token list \<Rightarrow> token list" where
  "after_type ty toks = tl (dropWhile (\<lambda>t. fst t \<noteq> ty) toks)"

text \<open>\<^verbatim>\<open>str.lower()\<close> and \<^verbatim>\<open>str.isidentifier()\<close> on ASCII text.\<close>

definition to_lower :: "char \<Rightarrow> char" where
  "to_lower c =
     (case map_of (zip ''ABCDEFGHIJKLMNOPQRSTUVWXYZ'' ''abcdefghijklmnopqrstuvwxyz'') c of
        Some d \<Rightarrow> d
      | None \<Rightarrow> c)"

definition lower :: "string \<Rightarrow> string" where
  "lower x = map to_lower x"

definition isidentifier :: "string \<Rightarrow> bool" where
  "isidentifier x =
     (case x of
        [] \<Rightarrow> False
      | c # cs \<Rightarrow>
          c \<in> set ''abcdefghijklmnopqrstuvwxyzABCDEFGHIJKLMNOPQRSTUVWXYZ_''
          \<and> list_all (\<lambda>d. d \<in> set ''abcdefghijklmnopqrstuvwxyzABCDEFGHIJKLMNOPQRSTUVWXYZ_0123456789'') cs)"

definition lit6 :: "string list" where
  "lit6 = [''STRING'', ''INTEGER'', ''FLOAT'', ''BOOLEAN'', ''NULL'', ''IDENTIFIER'']"

definition lit5 :: "string list" where
  "lit5 = [''INTEGER'', ''FLOAT'', ''STRING'', ''IDENTIFIER'', ''BOOLEAN'']"

definition lit4 :: "string list" where
  "lit4 = [''INTEGER'', ''FLOAT'', ''STRING'', ''BOOLEAN'']"

definition math_types :: "string list" where
  "math_types = [''SQUARE'', ''SQUAREROOT'', ''GCD'', ''LCM'', ''RANDOM_INT'']"

definition variable_types :: "string list" where
  "variable_types =
     [''ASSIGN'', ''SET'', ''CHANGE'', ''INCREASE'', ''DECREASE'', ''MULTIPLY'', ''DIVIDE'',
      ''EXPONENTIATE'', ''BLOCK'']"

section \<open>Statement helpers that the two parsers share\<close>

text \<open>What a \<^verbatim>\<open>parse_*\<close> helper does after reading its header line: it returns a node (or
  nothing), or it collects the indented block that follows and wraps it. The indentation
  it hands to \<^verbatim>\<open>_collect_block\<close> is the header's (\<open>OfHeader\<close>), or \<^verbatim>\<open>None\<close> (\<open>OfPrevious\<close>), or (\<open>OfNext\<close>, python_code's
  \<^verbatim>\<open>parse_function_def\<close>) that of the line under the cursor after the header was consumed.\<close>

datatype parent = OfHeader | OfPrevious | OfNext

datatype plan = Leaf "node option" | Block "node list \<Rightarrow> node" parent

definition bold_of :: "token list \<Rightarrow> bool" where
  "bold_of toks = has_type ''PLUS_BOLD'' toks"

definition parse_interact :: "token list \<Rightarrow> node" where
  "parse_interact toks = InteractNode (first_value [''STRING'', ''IDENTIFIER''] toks) (bold_of toks)"

text \<open>The ASSIGN branch of \<^verbatim>\<open>parse_variable_statement\<close>.\<close>

definition parse_assign :: "token list \<Rightarrow> node" where
  "parse_assign toks =
     (let v = first_value lit6 (after_type ''ASSIGN'' toks) in
      case value_after ''TO'' (\<lambda>ty. ty = ''IDENTIFIER'') toks of
        Some var \<Rightarrow> AssignNode (name_of var) v
      | None \<Rightarrow>
          (case v of
             VStr x \<Rightarrow> (if isidentifier x then AssignNode (Some x) VNone else AssignNode None v)
           | _ \<Rightarrow> AssignNode None v))"

text \<open>The SET and CHANGE branches: the first identifier, then the value after a later
  \<^verbatim>\<open>TO\<close> whose type satisfies \<open>ok\<close>.\<close>

definition parse_target_to :: "(string \<Rightarrow> bool) \<Rightarrow> token list \<Rightarrow> name \<times> val" where
  "parse_target_to ok toks =
     (case dropWhile (\<lambda>t. fst t \<noteq> ''IDENTIFIER'') toks of
        [] \<Rightarrow> (None, VNone)
      | t # rest \<Rightarrow> (name_of (snd t), or_none (value_after ''TO'' ok rest)))"

text \<open>The arithmetic branch: the identifier right after the operator keyword, and the
  value after a later \<^verbatim>\<open>BY\<close>.\<close>

definition parse_arith :: "string \<Rightarrow> token list \<Rightarrow> name \<times> val" where
  "parse_arith opr toks =
     (case dropWhile (\<lambda>t. fst t \<noteq> opr) toks of
        [] \<Rightarrow> (None, VNone)
      | t # rest \<Rightarrow>
          ((case rest of
              u # _ \<Rightarrow> (if fst u = ''IDENTIFIER'' then name_of (snd u) else None)
            | [] \<Rightarrow> None),
           or_none (value_after ''BY'' (\<lambda>ty. True) rest)))"

definition arith_node :: "string \<Rightarrow> name \<times> val \<Rightarrow> node option" where
  "arith_node opr nv =
     (if opr = ''INCREASE'' then Some (IncreaseNode (fst nv) (snd nv))
      else if opr = ''DECREASE'' then Some (DecreaseNode (fst nv) (snd nv))
      else if opr = ''MULTIPLY'' then Some (MultiplyNode (fst nv) (snd nv))
      else if opr = ''DIVIDE'' then Some (DivideNode (fst nv) (snd nv))
      else if opr = ''EXPONENTIATE'' then Some (ExponentiateNode (fst nv) (snd nv))
      else None)"

definition parse_arith_stmt :: "token list \<Rightarrow> node option" where
  "parse_arith_stmt toks =
     (case find (\<lambda>k. has_type k toks)
             [''INCREASE'', ''DECREASE'', ''MULTIPLY'', ''DIVIDE'', ''EXPONENTIATE''] of
        Some opr \<Rightarrow> arith_node opr (parse_arith opr toks)
      | None \<Rightarrow> None)"

definition parse_block_var :: "token list \<Rightarrow> node option" where
  "parse_block_var toks =
     (case find (\<lambda>t. fst t = ''IDENTIFIER'') toks of
        Some t \<Rightarrow> Some (BlockVarNode (name_of (snd t)))
      | None \<Rightarrow> None)"

definition parse_list :: "token list \<Rightarrow> node" where
  "parse_list toks = ListNode (name_of (first_value [''IDENTIFIER''] toks)) (values_of lit5 toks)"

definition parse_list_add :: "token list \<Rightarrow> node" where
  "parse_list_add toks =
     ListAddNode (name_of (last_value [''IDENTIFIER''] toks)) (first_value lit5 toks)"

definition foreach_fields :: "token list \<Rightarrow> name \<times> name" where
  "foreach_fields toks =
     (name_of (first_value [''IDENTIFIER''] toks),
      (case values_after ''IN'' (\<lambda>ty. ty = ''IDENTIFIER'') toks of
         [] \<Rightarrow> None
       | vs \<Rightarrow> name_of (last vs)))"

definition parse_function_abbrev :: "token list \<Rightarrow> node" where
  "parse_function_abbrev toks =
     (case values_of [''STRING'', ''IDENTIFIER''] toks of
        [] \<Rightarrow> FunctionAbbrevNode None None
      | [x] \<Rightarrow> FunctionAbbrevNode (name_of x) None
      | x # xs \<Rightarrow> FunctionAbbrevNode (name_of x) (name_of (last xs)))"

definition math_args :: "token list \<Rightarrow> val list" where
  "math_args toks = values_of [''INTEGER'', ''FLOAT'', ''IDENTIFIER''] toks"

text \<open>The fields of a \<^verbatim>\<open>FileNode\<close> that both parsers compute the same way.\<close>

definition file_action :: "token list \<Rightarrow> name" where
  "file_action toks =
     (case filter (\<lambda>t. take 5 (fst t) = ''FILE_'') toks of [] \<Rightarrow> None | ts \<Rightarrow> Some (fst (last ts)))"

definition file_find_replace :: "token list \<Rightarrow> name \<times> name" where
  "file_find_replace toks =
     (let strs = values_of [''STRING''] toks in
      if has_type ''FILE_FIND'' toks \<and> has_type ''FILE_REPLACE'' toks \<and> 3 \<le> length strs
      then (name_of (strs ! 1), name_of (strs ! 2))
      else (None, None))"

definition case_modes :: "string list" where
  "case_modes = [''upper'', ''lower'', ''camel'', ''snake'', ''pascal'']"

definition parse_getter :: "token list \<Rightarrow> node option" where
  "parse_getter toks =
     (let target = first_value [''IDENTIFIER'', ''STRING''] toks;
          ms = filter (\<lambda>m. m \<in> set case_modes)
                 (map (\<lambda>t. lower (str_of (snd t))) (filter (\<lambda>t. name_of (snd t) \<noteq> None) toks));
          mode = (case ms of [] \<Rightarrow> None | _ \<Rightarrow> Some (last ms))
      in if has_type ''GET_LENGTH'' toks then Some (GetLengthNode target)
         else if has_type ''GET_CASE'' toks then Some (GetCaseNode target mode)
         else if has_type ''GET_TYPE'' toks then Some (GetTypeNode target)
         else None)"

definition parse_import :: "token list \<Rightarrow> node" where
  "parse_import toks =
     ImportNode (map str_of (values_of [''IDENTIFIER''] toks)) (name_of (last_value [''STRING''] toks))"

definition parse_export :: "token list \<Rightarrow> node" where
  "parse_export toks = ExportNode (map str_of (values_of [''IDENTIFIER''] toks))"

text \<open>The test of the list-add branch: an \<^verbatim>\<open>ADD\<close> token and an identifier spelled
  \<^verbatim>\<open>list\<close> in any case.\<close>

definition is_list_add :: "token list \<Rightarrow> bool" where
  "is_list_add toks =
     (has_type ''ADD'' toks
      \<and> list_ex (\<lambda>t. fst t = ''IDENTIFIER'' \<and> lower (str_of (snd t)) = ''list'') toks)"

definition has_file_type :: "token list \<Rightarrow> bool" where
  "has_file_type toks = list_ex (\<lambda>t. take 4 (fst t) = ''FILE'') toks"

section \<open>The python_code parser\<close>

definition parse_display_py :: "token list \<Rightarrow> node" where
  "parse_display_py toks = DisplayNode (DVal (first_value lit6 toks)) (bold_of toks)"

text \<open>\<^verbatim>\<open>parse_variable_statement\<close> (python_code/parser.py 178-274).\<close>

definition parse_variable_statement_py :: "token list \<Rightarrow> node option" where
  "parse_variable_statement_py toks =
     (if has_type ''ASSIGN'' toks then Some (parse_assign toks)
      else if has_type ''SET'' toks \<and> \<not> has_type ''VARIABLE'' toks then
        (case parse_target_to (\<lambda>ty. ty \<in> set lit6) toks of (n, v) \<Rightarrow> Some (SetNode n v))
      else if has_type ''CHANGE'' toks then
        (case parse_target_to (\<lambda>ty. True) toks of (n, v) \<Rightarrow> Some (ChangeNode n v))
      else if has_any [''INCREASE'', ''DECREASE'', ''MULTIPLY'', ''DIVIDE'', ''EXPONENTIATE''] toks
        then parse_arith_stmt toks
      else if has_type ''BLOCK'' toks then parse_block_var toks
      else None)"

text \<open>\<^verbatim>\<open>parse_function_call\<close> (python_code/parser.py 352-379).\<close>

definition parse_function_call_py :: "token list \<Rightarrow> node" where
  "parse_function_call_py toks =
     (let first = find (\<lambda>t. fst t \<in> set [''STRING'', ''IDENTIFIER'']) toks;
          n = (case first of Some t \<Rightarrow> name_of (snd t) | None \<Rightarrow> None);
          call_style =
            (case toks of
               [] \<Rightarrow> False
             | t0 # rest \<Rightarrow>
                 \<not> (fst t0 \<noteq> ''IDENTIFIER''
                    \<or> (case rest of [] \<Rightarrow> False | t1 # _ \<Rightarrow> fst t1 \<noteq> ''('')));
          args1 =
            (case first of
               Some t \<Rightarrow> (if fst t = ''IDENTIFIER'' \<and> call_style then values_of lit5 (tl toks) else [])
             | None \<Rightarrow> [])
      in FunctionCallNode n (args1 @ values_of lit4 toks))"

text \<open>\<^verbatim>\<open>parse_function_def\<close> (python_code/parser.py 325-350): the parameter list stays
  empty, and the indentation handed to \<^verbatim>\<open>_collect_block\<close> is read from \<^verbatim>\<open>self.current()\<close>
  after \<^verbatim>\<open>_consume()\<close> has moved the cursor past the header.\<close>

definition parse_function_def_py :: "token list \<Rightarrow> plan" where
  "parse_function_def_py toks =
     Block (FunctionDefNode (name_of (first_value [''STRING'', ''IDENTIFIER''] toks)) []) OfNext"

definition parse_math_func_py :: "token list \<Rightarrow> node" where
  "parse_math_func_py toks =
     MathFuncNode
       (case find (\<lambda>t. fst t \<in> set math_types) toks of Some t \<Rightarrow> Some (fst t) | None \<Rightarrow> None)
       (math_args toks)"

definition parse_file_py :: "token list \<Rightarrow> node" where
  "parse_file_py toks =
     (let strs = values_of [''STRING''] toks;
          fr = file_find_replace toks
      in FileNode (file_action toks) (name_of (last_value [''STRING''] toks))
           (if 2 \<le> length strs then name_of (strs ! 1) else None)
           (has_type ''AT_FIRST'' toks) (fst fr) (snd fr))"

text \<open>\<^verbatim>\<open>parse_dictionary\<close> (python_code/parser.py 525-549): for each identifier, the
  first value-like token after the first token equal to it (\<^verbatim>\<open>tokens.index(tok)\<close>).\<close>

definition dict_entry_py :: "token list \<Rightarrow> token \<Rightarrow> (string \<times> val) list \<Rightarrow> (string \<times> val) list" where
  "dict_entry_py toks t d =
     (if fst t = ''IDENTIFIER'' then
        (case find (\<lambda>r. fst r \<in> set lit5) (tl (dropWhile (\<lambda>u. u \<noteq> t) toks)) of
           Some r \<Rightarrow> dict_set (str_of (snd t)) (snd r) d
         | None \<Rightarrow> d)
      else d)"

definition parse_dictionary_py :: "token list \<Rightarrow> node" where
  "parse_dictionary_py toks =
     DictionaryNode (name_of (first_value [''IDENTIFIER''] toks))
       (foldl (\<lambda>d t. dict_entry_py toks t d) [] toks)"

text \<open>\<^verbatim>\<open>parse_statement\<close> (python_code/parser.py 42-131): the first test that matches
  decides, in this order.\<close>

definition dispatch_py :: "token list \<Rightarrow> plan" where
  "dispatch_py toks =
     (if toks = [] then Leaf None
      else if has_type ''DISPLAY'' toks then Leaf (Some (parse_display_py toks))
      else if has_type ''INTERACT'' toks then Leaf (Some (parse_interact toks))
      else if has_type ''CREATE_LIST'' toks then Leaf (Some (parse_list toks))
      else if is_list_add toks then Leaf (Some (parse_list_add toks))
      else if has_type ''FOREACH'' toks then
        (case foreach_fields toks of (var, it) \<Rightarrow> Block (ForEachNode var it) OfHeader)
      else if has_any variable_types toks then Leaf (parse_variable_statement_py toks)
      else if has_type ''DEFINE_FUNCTION'' toks then parse_function_def_py toks
      else if has_type ''CALL_FUNCTION'' toks
              \<or> (fst (hd toks) = ''IDENTIFIER'' \<and> 1 < length toks \<and> fst (toks ! 1) = ''('')
        then Leaf (Some (parse_function_call_py toks))
      else if has_type ''ABBREV_FUNCTION'' toks then Leaf (Some (parse_function_abbrev toks))
      else if has_type ''IF'' toks then Block (IfNode (first_value lit6 toks)) OfHeader
      else if has_type ''ORIF'' toks then Block (OrIfNode (first_value lit6 toks)) OfHeader
      else if has_type ''OTHERWISE'' toks then Block OtherwiseNode OfHeader
      else if has_type ''REPEAT'' toks then
        Block (RepeatNode (first_value [''INTEGER'', ''IDENTIFIER''] toks)) OfPrevious
      else if has_type ''DOUNTIL'' toks then Block (DoUntilNode (first_value lit6 toks)) OfHeader
      else if has_any math_types toks then Leaf (Some (parse_math_func_py toks))
      else if has_file_type toks then Leaf (Some (parse_file_py toks))
      else if has_any [''GET_LENGTH'', ''GET_CASE'', ''GET_TYPE''] toks then Leaf (parse_getter toks)
      else if has_type ''IMPORT'' toks then Leaf (Some (parse_import toks))
      else if has_type ''EXPORTS'' toks then Leaf (Some (parse_export toks))
      else if has_type ''CREATE_DICT'' toks \<or> has_type ''CONTAINING'' toks
        then Leaf (Some (parse_dictionary_py toks))
      else Leaf None)"

section \<open>The caml-code parser\<close>

text \<open>\<^verbatim>\<open>_filtered_tokens\<close>: tokens of the types IGNORED and DOT are dropped.\<close>

definition filtered_tokens :: "token list \<Rightarrow> token list" where
  "filtered_tokens toks =
     filter (\<lambda>t. fst t \<noteq> [] \<and> fst t \<notin> set [''IGNORED'', ''DOT'']) toks"

text \<open>\<^verbatim>\<open>_build_function_call_from_tokens\<close> (caml-code/parser.py 289-338).\<close>

definition build_function_call_caml :: "token list \<Rightarrow> name \<times> val list" where
  "build_function_call_caml toks =
     (let explicit =
            (if has_type ''CALL_FUNCTION'' toks then
               (case dropWhile (\<lambda>t. fst t \<notin> set [''STRING'', ''IDENTIFIER''])
                       (after_type ''CALL_FUNCTION'' toks) of
                  [] \<Rightarrow> None
                | t # rest \<Rightarrow> Some (name_of (snd t), values_of lit5 rest))
             else None)
      in case explicit of
           Some (Some f, args) \<Rightarrow> (Some f, args)
         | _ \<Rightarrow>
             (case dropWhile (\<lambda>t. fst t \<noteq> ''IDENTIFIER'') toks of
                [] \<Rightarrow> (None, (case explicit of Some (_, args) \<Rightarrow> args | None \<Rightarrow> []))
              | t # rest \<Rightarrow>
                  (case rest of
                     u # after \<Rightarrow>
                       (if fst u = ''('' then
                          (name_of (snd t),
                           (case explicit of Some (_, args) \<Rightarrow> args | None \<Rightarrow> [])
                           @ values_of lit5 (takeWhile (\<lambda>w. fst w \<noteq> '')'') after))
                        else
                          (name_of (snd t),
                           (case explicit of Some (_, args) \<Rightarrow> args | None \<Rightarrow> [])
                           @ values_of lit5 rest))
                   | [] \<Rightarrow> (name_of (snd t), (case explicit of Some (_, args) \<Rightarrow> args | None \<Rightarrow> [])))))"

definition parse_display_caml :: "token list \<Rightarrow> node" where
  "parse_display_caml toks =
     (if has_type ''CALL_FUNCTION'' toks \<or> has_type ''('' toks then
        (case build_function_call_caml toks of (f, args) \<Rightarrow> DisplayNode (DCall f args) (bold_of toks))
      else DisplayNode (DVal (first_value lit6 toks)) (bold_of toks))"

text \<open>\<^verbatim>\<open>parse_function_def\<close> (caml-code/parser.py 260-287): the identifiers between
  parentheses are the parameters.\<close>

fun collect_params :: "bool \<Rightarrow> token list \<Rightarrow> string list" where
  "collect_params collecting [] = []"
| "collect_params collecting (t # ts) =
     (if fst t = ''('' then collect_params True ts
      else if fst t = '')'' then collect_params False ts
      else if collecting \<and> fst t = ''IDENTIFIER'' then str_of (snd t) # collect_params collecting ts
      else collect_params collecting ts)"

definition parse_function_def_caml :: "token list \<Rightarrow> plan" where
  "parse_function_def_caml toks =
     Block (FunctionDefNode (name_of (first_value [''STRING'', ''IDENTIFIER''] toks))
              (if has_type ''('' toks then collect_params False toks else []))
       OfHeader"

text \<open>\<^verbatim>\<open>parse_variable_statement\<close> (caml-code/parser.py 362-436).\<close>

definition parse_variable_statement_caml :: "token list \<Rightarrow> node option" where
  "parse_variable_statement_caml toks =
     (if has_type ''ASSIGN'' toks then Some (parse_assign toks)
      else if has_type ''SET'' toks then
        (case parse_target_to (\<lambda>ty. True) toks of (n, v) \<Rightarrow> Some (SetNode n v))
      else if has_type ''CHANGE'' toks then
        (case parse_target_to (\<lambda>ty. True) toks of (n, v) \<Rightarrow> Some (ChangeNode n v))
      else if has_any [''INCREASE'', ''DECREASE'', ''MULTIPLY'', ''DIVIDE'', ''EXPONENTIATE''] toks
        then parse_arith_stmt toks
      else if has_type ''BLOCK'' toks then parse_block_var toks
      else None)"

definition parse_math_func_caml :: "token list \<Rightarrow> node" where
  "parse_math_func_caml toks =
     MathFuncNode
       (case filter (\<lambda>t. fst t \<in> set math_types) toks of [] \<Rightarrow> None | ts \<Rightarrow> Some (fst (last ts)))
       (math_args toks)"

definition parse_file_caml :: "token list \<Rightarrow> node" where
  "parse_file_caml toks =
     (let strs = values_of [''STRING''] toks;
          fr = file_find_replace toks
      in FileNode (file_action toks)
           (case strs of [] \<Rightarrow> None | x # _ \<Rightarrow> name_of x)
           (case strs of x # y # ys \<Rightarrow> name_of (last (y # ys)) | _ \<Rightarrow> None)
           (has_type ''AT_FIRST'' toks) (fst fr) (snd fr))"

text \<open>\<^verbatim>\<open>parse_dictionary\<close> (caml-code/parser.py 608-623): for each identifier, the first
  value-like token after it.\<close>

fun dict_entries_caml :: "token list \<Rightarrow> (string \<times> val) list \<Rightarrow> (string \<times> val) list" where
  "dict_entries_caml [] d = d"
| "dict_entries_caml (t # ts) d =
     dict_entries_caml ts
       (if fst t = ''IDENTIFIER'' then
          (case find (\<lambda>r. fst r \<in> set lit5) ts of
             Some r \<Rightarrow> dict_set (str_of (snd t)) (snd r) d
           | None \<Rightarrow> d)
        else d)"

definition parse_dictionary_caml :: "token list \<Rightarrow> node" where
  "parse_dictionary_caml toks =
     DictionaryNode (name_of (first_value [''IDENTIFIER''] toks)) (dict_entries_caml toks [])"

text \<open>\<^verbatim>\<open>parse_statement\<close> (caml-code/parser.py 67-141), on the raw tokens of the line.\<close>

definition dispatch_caml :: "token list \<Rightarrow> plan" where
  "dispatch_caml raw =
     (let toks = filtered_tokens raw in
      if toks = [] then Leaf None
      else if has_type ''DISPLAY'' toks then Leaf (Some (parse_display_caml toks))
      else if has_type ''INTERACT'' toks then Leaf (Some (parse_interact toks))
      else if has_type ''CREATE_WINDOW'' toks \<or> has_type ''WINDOW'' toks then
        Block (\<lambda>body. ObjectNode (name_of (first_value [''IDENTIFIER'', ''STRING''] toks)) body True)
          OfHeader
      else if has_type ''CREATE_BUTTON'' toks \<or> has_type ''BUTTON'' toks then
        Block (ButtonNode (name_of (first_value [''IDENTIFIER''] toks))
                 (name_of (or_none (value_after ''IN'' (\<lambda>ty. ty = ''IDENTIFIER'') toks))))
          OfHeader
      else if has_type ''CREATE_LIST'' toks then Leaf (Some (parse_list toks))
      else if is_list_add toks then Leaf (Some (parse_list_add toks))
      else if has_any variable_types toks then Leaf (parse_variable_statement_caml toks)
      else if has_type ''DEFINE_FUNCTION'' toks then parse_function_def_caml toks
      else if has_type ''CALL_FUNCTION'' toks
              \<or> (fst (hd toks) = ''IDENTIFIER'' \<and> has_any lit4 (tl toks))
        then (case build_function_call_caml toks of (f, args) \<Rightarrow> Leaf (Some (FunctionCallNode f args)))
      else if has_type ''ABBREV_FUNCTION'' toks then Leaf (Some (parse_function_abbrev toks))
      else if has_type ''IF'' toks then Block (IfNode (first_value lit6 toks)) OfHeader
      else if has_type ''ORIF'' toks then Block (OrIfNode (first_value lit6 toks)) OfHeader
      else if has_type ''OTHERWISE'' toks then Block OtherwiseNode OfHeader
      else if has_type ''REPEAT'' toks then
        Block (RepeatNode (first_value [''INTEGER'', ''IDENTIFIER''] toks)) OfHeader
      else if has_type ''DOUNTIL'' toks then Block (DoUntilNode (first_value lit6 toks)) OfHeader
      else if has_type ''FOREACH'' toks then
        (case foreach_fields toks of (var, it) \<Rightarrow> Block (ForEachNode var it) OfHeader)
      else if has_any math_types toks then Leaf (Some (parse_math_func_caml toks))
      else if has_file_type toks then Leaf (Some (parse_file_caml toks))
      else if has_any [''GET_LENGTH'', ''GET_CASE'', ''GET_TYPE''] toks then Leaf (parse_getter toks)
      else if has_type ''IMPORT'' toks then Leaf (Some (parse_import toks))
      else if has_type ''EXPORTS'' toks then Leaf (Some (parse_export toks))
      else if has_type ''CREATE_DICT'' toks \<or> has_type ''CONTAINING'' toks
        then Leaf (Some (parse_dictionary_caml toks))
      else Leaf None)"

section \<open>Statements and indented blocks\<close>

text \<open>
  \<^verbatim>\<open>parse_statement\<close> and \<^verbatim>\<open>_collect_block\<close> (python_code/parser.py 42-131 and 552-579,
  caml-code/parser.py 67-141 and 144-168) over the line list \<open>ls\<close> and the cursor \<open>p\<close>;
  \<open>d\<close> is the dispatch of the parser at hand. The two copies differ only in the dispatch
  and in python_code's treatment of the parent indentation \<^verbatim>\<open>None\<close>.

  Each function returns, besides its nodes, how far it moved the cursor:
  \<open>parse_statement\<close> always moves past its own line (\<^verbatim>\<open>advance\<close>) and returns the number
  \<open>k\<close> of further lines that its block took, so the cursor is \<open>p + 1 + k\<close> afterwards;
  \<open>collect_block\<close> and its loop return the number of lines they took.
\<close>

function parse_statement :: "(token list \<Rightarrow> plan) \<Rightarrow> line list \<Rightarrow> nat \<Rightarrow> node option \<times> nat"
  and collect_block :: "(token list \<Rightarrow> plan) \<Rightarrow> line list \<Rightarrow> nat \<Rightarrow> nat option \<Rightarrow> node list \<times> nat"
  and collect_loop :: "(token list \<Rightarrow> plan) \<Rightarrow> line list \<Rightarrow> nat \<Rightarrow> nat \<Rightarrow> node list \<times> nat"
where
  "parse_statement d ls p =
     (if p < length ls then
        (case d (snd (ls ! p)) of
           Leaf n \<Rightarrow> (n, 0)
         | Block mk par \<Rightarrow>
             (case collect_block d ls (Suc p)
                     (case par of
                        OfHeader \<Rightarrow> Some (fst (ls ! p))
                      | OfPrevious \<Rightarrow> None
                      | OfNext \<Rightarrow> Some (if Suc p < length ls then fst (ls ! Suc p) else 0)) of
                (body, k) \<Rightarrow> (Some (mk body), k)))
      else (None, 0))"
| "collect_block d ls p parent_indent =
     (if length ls \<le> p then ([], 0)
      else
        (let parent = (case parent_indent of
                         Some i \<Rightarrow> i
                       | None \<Rightarrow> (if p = 0 then 0 else fst (ls ! (p - 1))))
         in if fst (ls ! p) \<le> parent then ([], 0)
            else collect_loop d ls p (fst (ls ! p))))"
| "collect_loop d ls p base_indent =
     (if p < length ls \<and> base_indent \<le> fst (ls ! p) then
        (case parse_statement d ls p of
           (n, k) \<Rightarrow>
             (case collect_loop d ls (Suc (p + k)) base_indent of
                (ns, k') \<Rightarrow> ((case n of Some x \<Rightarrow> [x] | None \<Rightarrow> []) @ ns, Suc (k + k'))))
      else ([], 0))"
  by pat_completeness auto
termination
  by (relation "measure (\<lambda>x. case x of
          Inl (d, ls, p) \<Rightarrow> 3 * (length ls - p)
        | Inr (Inl (d, ls, p, i)) \<Rightarrow> 3 * (length ls - p) + 2
        | Inr (Inr (d, ls, p, b)) \<Rightarrow> 3 * (length ls - p) + 1)") auto

declare parse_statement.simps [simp del] collect_block.simps [simp del] collect_loop.simps [simp del]

text \<open>\<^verbatim>\<open>parse\<close>: statements until the cursor reaches the end.\<close>

function parse_loop :: "(token list \<Rightarrow> plan) \<Rightarrow> line list \<Rightarrow> nat \<Rightarrow> node list" where
  "parse_loop d ls p =
     (if p < length ls then
        (case parse_statement d ls p of
           (n, k) \<Rightarrow> (case n of Some x \<Rightarrow> [x] | None \<Rightarrow> []) @ parse_loop d ls (Suc (p + k)))
      else [])"
  by pat_completeness auto
termination
  by (relation "measure (\<lambda>(d, ls, p). length ls - p)") auto

declare parse_loop.simps [simp del]

definition parse_py :: "line list \<Rightarrow> node list" where
  "parse_py ls = parse_loop dispatch_py ls 0"

definition parse_caml :: "line list \<Rightarrow> node list" where
  "parse_caml ls = parse_loop dispatch_caml ls 0"

text \<open>The lines that the specification assigns to a block with baseline \<open>b\<close>: from the
  cursor on, all lines up to the first one indented less than \<open>b\<close>.\<close>

definition block_lines :: "nat \<Rightarrow> line list \<Rightarrow> line list" where
  "block_lines b ls = takeWhile (\<lambda>l. b \<le> fst l) ls"

text \<open>The parent indentation that \<^verbatim>\<open>_collect_block\<close> works with: python_code replaces
  \<^verbatim>\<open>None\<close> by the indentation of the line before the cursor.\<close>

definition resolved :: "line list \<Rightarrow> nat \<Rightarrow> nat option \<Rightarrow> nat" where
  "resolved ls p par = (case par of Some i \<Rightarrow> i | None \<Rightarrow> (if p = 0 then 0 else fst (ls ! (p - 1))))"

text \<open>Token lines for examples: an \<^verbatim>\<open>If\<close> block that holds a nested \<^verbatim>\<open>If\<close> block, then a
  statement at the outer level.\<close>

definition demo_lines :: "line list" where
  "demo_lines =
     [(0, [(''IF'', VStr ''if''), (''BOOLEAN'', VStr ''true'')]),
      (4, [(''DISPLAY'', VStr ''display''), (''STRING'', VStr ''a'')]),
      (4, [(''IF'', VStr ''if''), (''BOOLEAN'', VStr ''true'')]),
      (8, [(''DISPLAY'', VStr ''display''), (''STRING'', VStr ''b'')]),
      (4, [(''DISPLAY'', VStr ''display''), (''STRING'', VStr ''c'')]),
      (0, [(''DISPLAY'', VStr ''display''), (''STRING'', VStr ''d'')])]"

section \<open>Text utilities of the lexers\<close>

text \<open>The characters the lexers single out. Source text is taken to be ASCII:
  \<^verbatim>\<open>str.lower\<close>, \<^verbatim>\<open>str.isdigit\<close>, \<^verbatim>\<open>\d\<close>, \<^verbatim>\<open>\b\<close> and \<^verbatim>\<open>\s\<close> are modelled on that range
  (with the further whitespace characters below 256 that \<^verbatim>\<open>str.isspace\<close> accepts).\<close>

abbreviation dquote :: char where "dquote \<equiv> CHR 0x22"
abbreviation backslash :: char where "backslash \<equiv> CHR 0x5C"
abbreviation newline :: char where "newline \<equiv> CHR 0x0A"
abbreviation creturn :: char where "creturn \<equiv> CHR 0x0D"

definition is_space :: "char \<Rightarrow> bool" where
  "is_space c =
     (c \<in> set [CHR 0x09, CHR 0x0A, CHR 0x0B, CHR 0x0C, CHR 0x0D, CHR 0x1C, CHR 0x1D, CHR 0x1E,
                CHR 0x1F, CHR 0x20, CHR 0x85, CHR 0xA0])"

definition is_digit :: "char \<Rightarrow> bool" where
  "is_digit c = (c \<in> set ''0123456789'')"

definition is_word_char :: "char \<Rightarrow> bool" where
  "is_word_char c = (c \<in> set ''abcdefghijklmnopqrstuvwxyzABCDEFGHIJKLMNOPQRSTUVWXYZ_0123456789'')"

text \<open>\<^verbatim>\<open>str.strip()\<close>, \<^verbatim>\<open>str.lstrip(' ')\<close> and \<^verbatim>\<open>str.strip(' ,:()')\<close>.\<close>

definition strip_with :: "(char \<Rightarrow> bool) \<Rightarrow> string \<Rightarrow> string" where
  "strip_with P x = rev (dropWhile P (rev (dropWhile P x)))"

definition strip :: "string \<Rightarrow> string" where
  "strip x = strip_with is_space x"

definition strip_punct :: "string \<Rightarrow> string" where
  "strip_punct x = strip_with (\<lambda>c. c \<in> set '' ,:()'') x"

definition skip_blanks :: "string \<Rightarrow> string" where
  "skip_blanks x = dropWhile (\<lambda>c. c = CHR '' '') x"

definition skip_spaces :: "string \<Rightarrow> string" where
  "skip_spaces x = dropWhile is_space x"

text \<open>\<^verbatim>\<open>str.split()\<close>: the maximal runs of characters that are not whitespace.\<close>

fun split_acc :: "string \<Rightarrow> string \<Rightarrow> string list" where
  "split_acc cur [] = (if cur = [] then [] else [rev cur])"
| "split_acc cur (c # cs) =
     (if is_space c then (if cur = [] then split_acc [] cs else rev cur # split_acc [] cs)
      else split_acc (c # cur) cs)"

definition split :: "string \<Rightarrow> string list" where
  "split x = split_acc [] x"

text \<open>\<^verbatim>\<open>sep.join(parts)\<close>.\<close>

fun join :: "string \<Rightarrow> string list \<Rightarrow> string" where
  "join sep [] = []"
| "join sep [x] = x"
| "join sep (x # y # ys) = x @ sep @ join sep (y # ys)"

text \<open>\<^verbatim>\<open>text.split('\n')\<close>.\<close>

fun split_lines_acc :: "string \<Rightarrow> string \<Rightarrow> string list" where
  "split_lines_acc cur [] = [rev cur]"
| "split_lines_acc cur (c # cs) =
     (if c = newline then rev cur # split_lines_acc [] cs else split_lines_acc (c # cur) cs)"

definition split_lines :: "string \<Rightarrow> string list" where
  "split_lines x = split_lines_acc [] x"

text \<open>\<^verbatim>\<open>text.replace('\r\n', '\n').replace('\r', '\n')\<close>.\<close>

fun normalize_newlines :: "string \<Rightarrow> string" where
  "normalize_newlines [] = []"
| "normalize_newlines [c] = [if c = creturn then newline else c]"
| "normalize_newlines (c # d # cs) =
     (if c = creturn \<and> d = newline then newline # normalize_newlines cs
      else (if c = creturn then newline else c) # normalize_newlines (d # cs))"

text \<open>Decimal numerals: \<^verbatim>\<open>int(num)\<close> and \<^verbatim>\<open>float(num)\<close>.\<close>

definition digit_val :: "char \<Rightarrow> nat" where
  "digit_val c = length (takeWhile (\<lambda>d. d \<noteq> c) ''0123456789'')"

definition nat_of_digits :: "string \<Rightarrow> nat" where
  "nat_of_digits ds = foldl (\<lambda>n c. 10 * n + digit_val c) 0 ds"

definition number_value :: "string \<Rightarrow> val" where
  "number_value txt =
     (let neg = (take 1 txt = ''-'');
          body = (if neg then drop 1 txt else txt);
          ip = takeWhile is_digit body;
          fp = drop 1 (dropWhile is_digit body)
      in if CHR ''.'' \<in> set txt then
           VFloat ((if neg then - 1 else 1)
                   * (real (nat_of_digits ip) + real (nat_of_digits fp) / 10 ^ length fp))
         else VInt ((if neg then - 1 else 1) * int (nat_of_digits ip)))"

text \<open>The text matched by \<^verbatim>\<open>re.match(r'-?\d+(\.\d+)?', s)\<close>, where \<open>s\<close> starts with a digit
  or with a minus sign and a digit.\<close>

definition match_number :: "string \<Rightarrow> string" where
  "match_number s =
     (let sign = (if take 1 s = ''-'' then ''-'' else []);
          body = drop (length sign) s;
          ip = takeWhile is_digit body;
          after = dropWhile is_digit body;
          fp = takeWhile is_digit (drop 1 after)
      in if take 1 after = ''.'' \<and> fp \<noteq> [] then sign @ ip @ ''.'' @ fp else sign @ ip)"

definition number_token :: "string \<Rightarrow> token" where
  "number_token txt = (if CHR ''.'' \<in> set txt then ''FLOAT'' else ''INTEGER'', number_value txt)"

section \<open>Hiding and restoring string literals\<close>

text \<open>The rest of a match of \<^verbatim>\<open>"(?:\\.|[^"\\])*"\<close> after its opening quote: the matched
  characters before the closing quote, and the text after it. The two alternatives
  exclude each other on their first character, so the match is found without
  backtracking; it fails at the end of the text and at a backslash that ends the text or
  stands before a newline.\<close>

fun match_string :: "string \<Rightarrow> string \<Rightarrow> (string \<times> string) option" where
  "match_string acc [] = None"
| "match_string acc [c] = (if c = dquote then Some (rev acc, []) else None)"
| "match_string acc (c # d # cs) =
     (if c = dquote then Some (rev acc, d # cs)
      else if c = backslash then (if d = newline then None else match_string (d # c # acc) cs)
      else match_string (c # acc) (d # cs))"

text \<open>\<^verbatim>\<open>f'__STR_{i}__'\<close>.\<close>

definition placeholder :: "nat \<Rightarrow> string" where
  "placeholder i = ''__STR_'' @ digits i @ ''__''"

lemma match_string_shorter:
  "match_string acc cs = Some (x, rest) \<Longrightarrow> length rest < length cs"
  by (induction acc cs rule: match_string.induct) (auto split: if_splits)

text \<open>\<^verbatim>\<open>string_pattern.sub(hide, text)\<close>: every match, found from left to right, is
  stored (with its quotes) and replaced by its placeholder.\<close>

function hide_strings :: "string list \<Rightarrow> string \<Rightarrow> string \<times> string list" where
  "hide_strings strs [] = ([], strs)"
| "hide_strings strs (c # cs) =
     (if c = dquote then
        (case match_string [] cs of
           Some (content, rest) \<Rightarrow>
             (case hide_strings (strs @ [dquote # content @ [dquote]]) rest of
                (out, strs') \<Rightarrow> (placeholder (length strs) @ out, strs'))
         | None \<Rightarrow> (case hide_strings strs cs of (out, strs') \<Rightarrow> (c # out, strs')))
      else (case hide_strings strs cs of (out, strs') \<Rightarrow> (c # out, strs')))"
  by pat_completeness auto
termination
  by (relation "measure (\<lambda>(strs, cs). length cs)") (auto dest: match_string_shorter)

text \<open>\<^verbatim>\<open>re.sub(r'__STR_(\d+)__', restore, text)\<close>; \<^verbatim>\<open>strings[idx]\<close> raises \<^verbatim>\<open>IndexError\<close>
  for a placeholder number that was never issued.\<close>

lemma after_digits_shorter: "length (dropWhile P (drop 5 cs)) - 2 < Suc (length cs)"
proof -
  have "length (dropWhile P (drop 5 cs)) \<le> length (drop 5 cs)"
    by (rule length_dropWhile_le)
  then show ?thesis by simp
qed

function restore_strings :: "string list \<Rightarrow> string \<Rightarrow> error + string" where
  "restore_strings strs [] = Inr []"
| "restore_strings strs (c # cs) =
     (let ds = takeWhile is_digit (drop 6 (c # cs));
          after = dropWhile is_digit (drop 6 (c # cs))
      in if take 6 (c # cs) = ''__STR_'' \<and> ds \<noteq> [] \<and> take 2 after = ''__'' then
           (if nat_of_digits ds < length strs then
              (case restore_strings strs (drop 2 after) of
                 Inr out \<Rightarrow> Inr (strs ! nat_of_digits ds @ out)
               | Inl e \<Rightarrow> Inl e)
            else Inl IndexError)
         else (case restore_strings strs cs of
                 Inr out \<Rightarrow> Inr (c # out)
               | Inl e \<Rightarrow> Inl e))"
  by pat_completeness auto
termination
  by (relation "measure (\<lambda>(strs, cs). length cs)") (auto simp: after_digits_shorter)

section \<open>Comments\<close>

text \<open>The line loop of \<^verbatim>\<open>_preprocess\<close>, the same in both lexers: a line that starts
  with \<^verbatim>\<open>$$$\<close> toggles the block-comment state and is dropped, lines inside a block
  comment are dropped, and any other line is cut at its first \<^verbatim>\<open>$\<close>.\<close>

fun strip_comments :: "bool \<Rightarrow> string list \<Rightarrow> string list" where
  "strip_comments in_block [] = []"
| "strip_comments in_block (l # ls) =
     (if take 3 (strip l) = ''$$$'' then strip_comments (\<not> in_block) ls
      else if in_block then strip_comments in_block ls
      else takeWhile (\<lambda>c. c \<noteq> CHR ''$'') l # strip_comments in_block ls)"

section \<open>The python_code lexer\<close>

text \<open>\<^verbatim>\<open>re.sub(r'\b(the|a|an)\b', '', text, flags=re.IGNORECASE)\<close>: a maximal run of word
  characters is removed when it spells one of the three articles. \<open>w\<close> is the run read
  so far, reversed.\<close>

definition flush_word :: "string \<Rightarrow> string" where
  "flush_word w = (if lower (rev w) \<in> set [''the'', ''a'', ''an''] then [] else rev w)"

fun remove_articles :: "string \<Rightarrow> string \<Rightarrow> string" where
  "remove_articles w [] = flush_word w"
| "remove_articles w (c # cs) =
     (if is_word_char c then remove_articles (c # w) cs
      else flush_word w @ c # remove_articles [] cs)"

text \<open>\<^verbatim>\<open>_preprocess\<close> (python_code/lexer.py 129-175): the strings are restored before
  the comments are handled.\<close>

definition preprocess_py :: "string \<Rightarrow> error + string list" where
  "preprocess_py raw =
     (case hide_strings [] (normalize_newlines raw) of
        (hidden, strs) \<Rightarrow>
          (case restore_strings strs (filter (\<lambda>c. c \<noteq> CHR ''.'') (remove_articles [] hidden)) of
             Inl e \<Rightarrow> Inl e
           | Inr text \<Rightarrow> Inr (strip_comments False (split_lines text))))"

definition keywords_py :: "(string \<times> string) list" where
  "keywords_py =
     [(''display'', ''DISPLAY''),
      (''interact'', ''INTERACT''),
      (''plus bold'', ''PLUS_BOLD''),
      (''assign'', ''ASSIGN''),
      (''set variable'', ''SET''),
      (''set'', ''SET''),
      (''change'', ''CHANGE''),
      (''increase'', ''INCREASE''),
      (''decrease'', ''DECREASE''),
      (''multiply'', ''MULTIPLY''),
      (''divide'', ''DIVIDE''),
      (''exponentiate'', ''EXPONENTIATE''),
      (''block'', ''BLOCK''),
      (''to'', ''TO''),
      (''by'', ''BY''),
      (''define function'', ''DEFINE_FUNCTION''),
      (''which takes'', ''WHICH_TAKES''),
      (''which does'', ''WHICH_DOES''),
      (''call function'', ''CALL_FUNCTION''),
      (''call'', ''CALL_FUNCTION''),
      (''abbreviate function'', ''ABBREV_FUNCTION''),
      (''abbreviate'', ''ABBREV_FUNCTION''),
      (''if'', ''IF''),
      (''or if'', ''ORIF''),
      (''otherwise'', ''OTHERWISE''),
      (''repeat this'', ''REPEAT''),
      (''times'', ''TIMES''),
      (''do this until'', ''DOUNTIL''),
      (''for each'', ''FOREACH''),
      (''in'', ''IN''),
      (''do'', ''DO''),
      (''square of'', ''SQUARE''),
      (''squareroot of'', ''SQUAREROOT''),
      (''gcd('', ''GCD''),
      (''lcm('', ''LCM''),
      (''generate random int'', ''RANDOM_INT''),
      (''create list'', ''CREATE_LIST''),
      (''containing contents'', ''CONTENTS''),
      (''add'', ''ADD''),
      (''remove'', ''REMOVE''),
      (''create dictionary'', ''CREATE_DICT''),
      (''containing'', ''CONTAINING''),
      (''create object'', ''CREATE_OBJECT''),
      (''delete'', ''DELETE''),
      (''add function'', ''ADD_FUNCTION''),
      (''create new file'', ''FILE_CREATE''),
      (''delete file'', ''FILE_DELETE''),
      (''write'', ''FILE_WRITE''),
      (''find'', ''FILE_FIND''),
      (''replace'', ''FILE_REPLACE''),
      (''rename file'', ''FILE_RENAME''),
      (''access file'', ''FILE_ACCESS''),
      (''at first line'', ''AT_FIRST''),
      (''get length of'', ''GET_LENGTH''),
      (''get case of'', ''GET_CASE''),
      (''get data type of'', ''GET_TYPE''),
      (''get data type'', ''GET_TYPE''),
      (''import'', ''IMPORT''),
      (''exports are'', ''EXPORTS''),
      (''exports'', ''EXPORTS''),
      (''true'', ''BOOLEAN''),
      (''false'', ''BOOLEAN''),
      (''null'', ''NULL''),
      (''undefined'', ''NULL''),
      (''and'', ''AND''),
      (''or'', ''OR''),
      (''except'', ''EXCEPT''),
      (''is equal to'', ''EQ''),
      (''is greater than'', ''GT''),
      (''is less than'', ''LT''),
      (''=='', ''EQSYM''),
      (''!=='', ''NEQSYM''),
      (''!='', ''NEQSYM''),
      (''~=='', ''CLOSEEST''),
      (''~'', ''ESTIMATE'')]"

text \<open>The string literal of python_code's \<^verbatim>\<open>tokenize\<close>: up to the first quote that does
  not follow a backslash, or to the end of the line. \<open>prev\<close> is the character before.\<close>

fun read_string_py :: "char \<Rightarrow> string \<Rightarrow> string \<Rightarrow> string \<times> string" where
  "read_string_py prev acc [] = (rev acc, [])"
| "read_string_py prev acc (c # cs) =
     (if c = dquote \<and> prev \<noteq> backslash then (rev acc, cs)
      else read_string_py c (c # acc) cs)"

text \<open>The longest keyword phrase at the start of \<open>rest\<close>, of at most \<open>3\<close> words.\<close>

definition phrase_py :: "string \<Rightarrow> string option" where
  "phrase_py rest =
     (let parts = split rest in
      case find (\<lambda>n. n \<le> length parts \<and> strip_punct (join '' '' (take n parts)) \<in> set (map fst keywords_py))
             [3, 2, 1] of
        Some n \<Rightarrow> Some (strip_punct (join '' '' (take n parts)))
      | None \<Rightarrow> None)"

definition consumed_py :: "string \<Rightarrow> string \<Rightarrow> nat" where
  "consumed_py chosen rest = length (join '' '' (take (length (split chosen)) (split rest)))"

definition word_py :: "string \<Rightarrow> string" where
  "word_py s = takeWhile (\<lambda>c. \<not> is_space c \<and> c \<notin> set '',():'') s"

definition word_token_py :: "string \<Rightarrow> token" where
  "word_token_py word =
     (case map_of keywords_py (lower word) of
        Some ty \<Rightarrow> (ty, VStr (lower word))
      | None \<Rightarrow> (''IDENTIFIER'', VStr word))"

definition keyword_token_py :: "string \<Rightarrow> token" where
  "keyword_token_py chosen = (the (map_of keywords_py chosen), VStr chosen)"

lemma read_string_py_shorter:
  "read_string_py prev acc cs = (s, rest) \<Longrightarrow> length rest \<le> length cs"
  by (induction prev acc cs rule: read_string_py.induct) (auto split: if_splits)

lemma split_acc_head:
  "cur \<noteq> [] \<Longrightarrow> split_acc cur cs \<noteq> [] \<and> hd (split_acc cur cs) \<noteq> []"
  by (induction cs arbitrary: cur) auto

lemma split_head: "\<not> is_space c \<Longrightarrow> split (c # cs) \<noteq> [] \<and> hd (split (c # cs)) \<noteq> []"
  by (simp add: split_def split_acc_head)

lemma join_take_head:
  "parts \<noteq> [] \<Longrightarrow> hd parts \<noteq> [] \<Longrightarrow> 0 < n \<Longrightarrow> 0 < length (join sep (take n parts))"
  by (cases parts; cases n; cases "tl parts"; cases "n - 1") auto

lemma is_space_to_lower: "is_space (to_lower c) = is_space c"
  by (auto simp: to_lower_def is_space_def split: option.splits if_splits)

lemma keywords_py_words: "k \<in> set (map fst keywords_py) \<Longrightarrow> split k \<noteq> []"
  by (auto simp: keywords_py_def split_def is_space_def)

lemma phrase_py_keyword: "phrase_py rest = Some chosen \<Longrightarrow> chosen \<in> set (map fst keywords_py)"
  by (auto simp: phrase_py_def Let_def split: option.splits if_splits)

lemma consumed_py_pos:
  assumes "\<not> is_space ch" and "phrase_py (lower (ch # cs)) = Some chosen"
  shows "0 < consumed_py chosen (lower (ch # cs))"
proof -
  have "split chosen \<noteq> []"
    using assms(2) by (intro keywords_py_words phrase_py_keyword)
  then have n: "0 < length (split chosen)" by simp
  have "\<not> is_space (to_lower ch)" using assms(1) by (simp add: is_space_to_lower)
  then have "split (lower (ch # cs)) \<noteq> [] \<and> hd (split (lower (ch # cs))) \<noteq> []"
    by (simp add: lower_def split_head)
  then show ?thesis
    unfolding consumed_py_def using n by (intro join_take_head) simp_all
qed

lemma match_number_pos:
  "is_digit ch \<or> (ch = CHR ''-'' \<and> cs \<noteq> [] \<and> is_digit (hd cs)) \<Longrightarrow> 0 < length (match_number (ch # cs))"
  by (cases cs) (auto simp: match_number_def Let_def is_digit_def)

lemma word_py_pos:
  "\<not> is_space ch \<Longrightarrow> ch \<notin> set '',():'' \<Longrightarrow> 0 < length (word_py (ch # cs))"
  by (simp add: word_py_def)

lemma skip_blanks_shorter: "length (skip_blanks x) \<le> length x"
  unfolding skip_blanks_def by (rule length_dropWhile_le)

lemma step_shorter: "0 < n \<Longrightarrow> (skip_blanks (drop n (ch # cs)), ch # cs) \<in> measure length"
  using skip_blanks_shorter [of "drop n (ch # cs)"] by simp

text \<open>The character loop of \<^verbatim>\<open>tokenize\<close> (python_code/lexer.py 192-275) on one stripped
  line: string literal, number, punctuation, word or keyword phrase, in this order.\<close>

function scan_py :: "string \<Rightarrow> token list" where
  "scan_py [] = []"
| "scan_py (ch # cs) =
     (if ch = dquote then
        (case read_string_py ch [] cs of
           (s, rest) \<Rightarrow> (''STRING'', VStr s) # scan_py (skip_blanks rest))
      else if is_digit ch \<or> (ch = CHR ''-'' \<and> cs \<noteq> [] \<and> is_digit (hd cs)) then
        number_token (match_number (ch # cs))
          # scan_py (skip_blanks (drop (length (match_number (ch # cs))) (ch # cs)))
      else if ch \<in> set ''(),:'' then ([ch], VStr [ch]) # scan_py cs
      else if \<not> is_space ch then
        (case phrase_py (lower (ch # cs)) of
           Some chosen \<Rightarrow>
             keyword_token_py chosen
               # scan_py (skip_blanks (drop (consumed_py chosen (lower (ch # cs))) (ch # cs)))
         | None \<Rightarrow>
             word_token_py (word_py (ch # cs))
               # scan_py (skip_blanks (drop (length (word_py (ch # cs))) (ch # cs))))
      else scan_py cs)"
  by pat_completeness auto
termination
proof (relation "measure length", goal_cases)
  case 1
  show ?case by simp
next
  case (2 ch cs x y)
  then have "length y \<le> length cs"
    using read_string_py_shorter [of ch "[]" cs x y] by simp
  then show ?case using skip_blanks_shorter [of y] by simp
next
  case (3 ch cs)
  then have "0 < length (match_number (ch # cs))" by (intro match_number_pos) simp
  then show ?case by (rule step_shorter)
next
  case (4 ch cs)
  show ?case by simp
next
  case (5 ch cs)
  then have "0 < length (word_py (ch # cs))" by (intro word_py_pos) auto
  then show ?case by (rule step_shorter)
next
  case (6 ch cs chosen)
  then have "0 < consumed_py chosen (lower (ch # cs))" by (intro consumed_py_pos)
  then show ?case by (rule step_shorter)
next
  case (7 ch cs)
  show ?case by simp
qed

declare scan_py.simps [simp del]

text \<open>\<^verbatim>\<open>tokenize\<close>: blank lines are skipped; the indentation is the number of leading
  spaces.\<close>

definition tokenize_lines :: "(string \<Rightarrow> token list) \<Rightarrow> string list \<Rightarrow> line list" where
  "tokenize_lines scan lines =
     map (\<lambda>raw. (length raw - length (skip_blanks raw), scan (strip raw)))
       (filter (\<lambda>raw. strip raw \<noteq> []) lines)"

definition tokenize_py :: "string \<Rightarrow> error + line list" where
  "tokenize_py raw =
     (case preprocess_py raw of
        Inl e \<Rightarrow> Inl e
      | Inr lines \<Rightarrow> Inr (tokenize_lines scan_py lines))"

section \<open>The caml-code lexer\<close>

text \<open>\<^verbatim>\<open>_preprocess\<close> (caml-code/lexer.py 119-157): the comments are handled while the
  strings are hidden, and the strings are restored afterwards.\<close>

definition preprocess_caml :: "string \<Rightarrow> error + string list" where
  "preprocess_caml raw =
     (case hide_strings [] (normalize_newlines raw) of
        (hidden, strs) \<Rightarrow>
          (case restore_strings strs (join [newline] (strip_comments False (split_lines hidden))) of
             Inl e \<Rightarrow> Inl e
           | Inr text \<Rightarrow> Inr (split_lines text)))"

definition keywords_caml :: "(string \<times> string) list" where
  "keywords_caml =
     [(''display'', ''DISPLAY''),
      (''interact'', ''INTERACT''),
      (''plus bold'', ''PLUS_BOLD''),
      (''assign'', ''ASSIGN''),
      (''set variable'', ''SET''),
      (''set'', ''SET''),
      (''change'', ''CHANGE''),
      (''increase'', ''INCREASE''),
      (''decrease'', ''DECREASE''),
      (''multiply'', ''MULTIPLY''),
      (''divide'', ''DIVIDE''),
      (''exponentiate'', ''EXPONENTIATE''),
      (''block'', ''BLOCK''),
      (''to'', ''TO''),
      (''by'', ''BY''),
      (''define function'', ''DEFINE_FUNCTION''),
      (''which takes'', ''WHICH_TAKES''),
      (''which does'', ''WHICH_DOES''),
      (''call function'', ''CALL_FUNCTION''),
      (''call'', ''CALL_FUNCTION''),
      (''abbreviate function'', ''ABBREV_FUNCTION''),
      (''abbreviate'', ''ABBREV_FUNCTION''),
      (''if'', ''IF''),
      (''or if'', ''ORIF''),
      (''otherwise'', ''OTHERWISE''),
      (''repeat this'', ''REPEAT''),
      (''times'', ''TIMES''),
      (''do this until'', ''DOUNTIL''),
      (''for each'', ''FOREACH''),
      (''in'', ''IN''),
      (''do'', ''DO''),
      (''square of'', ''SQUARE''),
      (''squareroot of'', ''SQUAREROOT''),
      (''gcd('', ''GCD''),
      (''lcm('', ''LCM''),
      (''generate random int'', ''RANDOM_INT''),
      (''create list'', ''CREATE_LIST''),
      (''containing contents'', ''CONTENTS''),
      (''add'', ''ADD''),
      (''remove'', ''REMOVE''),
      (''create dictionary'', ''CREATE_DICT''),
      (''containing'', ''CONTAINING''),
      (''create object'', ''CREATE_OBJECT''),
      (''create window'', ''CREATE_WINDOW''),
      (''create a new button'', ''CREATE_BUTTON''),
      (''create button'', ''CREATE_BUTTON''),
      (''window'', ''WINDOW''),
      (''button'', ''BUTTON''),
      (''delete'', ''DELETE''),
      (''add function'', ''ADD_FUNCTION''),
      (''create new file'', ''FILE_CREATE''),
      (''delete file'', ''FILE_DELETE''),
      (''write'', ''FILE_WRITE''),
      (''find'', ''FILE_FIND''),
      (''replace'', ''FILE_REPLACE''),
      (''rename file'', ''FILE_RENAME''),
      (''access file'', ''FILE_ACCESS''),
      (''at first line'', ''AT_FIRST''),
      (''get length of'', ''GET_LENGTH''),
      (''get case of'', ''GET_CASE''),
      (''get data type of'', ''GET_TYPE''),
      (''import'', ''IMPORT''),
      (''exports are'', ''EXPORTS''),
      (''exports'', ''EXPORTS''),
      (''true'', ''BOOLEAN''),
      (''false'', ''BOOLEAN''),
      (''null'', ''NULL''),
      (''undefined'', ''NULL''),
      (''and'', ''AND''),
      (''or'', ''OR''),
      (''except'', ''EXCEPT''),
      (''is equal to'', ''EQ''),
      (''is greater than'', ''GT''),
      (''is less than'', ''LT''),
      (''return'', ''RETURN'')]"

definition filler_words :: "string list" where
  "filler_words = [''the'', ''a'', ''an'']"

text \<open>The string literal of caml-code's \<^verbatim>\<open>tokenize\<close>: up to the first quote that is
  not escaped, or to the end of the line.\<close>

fun read_string_caml :: "bool \<Rightarrow> string \<Rightarrow> string \<Rightarrow> string \<times> string" where
  "read_string_caml escaped acc [] = (rev acc, [])"
| "read_string_caml escaped acc (c # cs) =
     (if c = dquote \<and> \<not> escaped then (rev acc, cs)
      else read_string_caml (c = backslash \<and> \<not> escaped) (c # acc) cs)"

text \<open>The longest keyword phrase at the start of \<open>rest\<close>, of at most \<open>4\<close> words, with the
  number of characters it takes up in the line.\<close>

definition phrase_caml :: "string \<Rightarrow> (string \<times> nat) option" where
  "phrase_caml rest =
     (let parts = split (strip rest) in
      case find (\<lambda>n. n \<le> length parts
                    \<and> lower (strip_punct (join '' '' (take n parts))) \<in> set (map fst keywords_caml))
             [4, 3, 2, 1] of
        Some n \<Rightarrow> Some (lower (strip_punct (join '' '' (take n parts))), length (join '' '' (take n parts)))
      | None \<Rightarrow> None)"

definition word_caml :: "string \<Rightarrow> string" where
  "word_caml s = takeWhile (\<lambda>c. \<not> is_space c \<and> c \<notin> set '',():+*/^'') s"

definition word_token_caml :: "string \<Rightarrow> token" where
  "word_token_caml word =
     (if lower word \<in> set filler_words then (''IGNORED'', VStr (lower word))
      else case map_of keywords_caml (lower word) of
             Some ty \<Rightarrow> (ty, VStr (lower word))
           | None \<Rightarrow> (''IDENTIFIER'', VStr word))"

definition keyword_token_caml :: "string \<Rightarrow> token" where
  "keyword_token_caml chosen = (the (map_of keywords_caml chosen), VStr chosen)"

lemma read_string_caml_shorter:
  "read_string_caml escaped acc cs = (s, rest) \<Longrightarrow> length rest \<le> length cs"
  by (induction escaped acc cs rule: read_string_caml.induct) (auto split: if_splits)

lemma strip_head:
  assumes "\<not> is_space c"
  shows "\<exists>ys. strip (c # cs) = c # ys"
proof -
  have "dropWhile is_space (rev cs @ [c]) =
          (if \<forall>x\<in>set cs. is_space x then [] else dropWhile is_space (rev cs)) @ [c]"
    using assms by (simp add: dropWhile_append)
  then show ?thesis
    using assms by (simp add: strip_def strip_with_def)
qed

lemma phrase_caml_pos:
  assumes "\<not> is_space ch" and "phrase_caml (ch # cs) = Some (chosen, consumed)"
  shows "0 < consumed"
proof -
  obtain ys where ys: "strip (ch # cs) = ch # ys"
    using assms(1) strip_head by blast
  have parts: "split (ch # ys) \<noteq> [] \<and> hd (split (ch # ys)) \<noteq> []"
    using assms(1) by (rule split_head)
  obtain n where n: "find (\<lambda>n. n \<le> length (split (ch # ys))
        \<and> lower (strip_punct (join '' '' (take n (split (ch # ys))))) \<in> set (map fst keywords_caml))
        [4, 3, 2, 1] = Some n"
    and c: "consumed = length (join '' '' (take n (split (ch # ys))))"
    using assms(2) unfolding phrase_caml_def ys Let_def by (auto split: option.splits)
  have "n \<in> set [4, 3, 2, 1]"
    using n unfolding find_Some_iff by (metis nth_mem)
  then have "0 < n" by auto
  then show ?thesis
    unfolding c using parts by (intro join_take_head) simp_all
qed

lemma word_caml_pos:
  "\<not> is_space ch \<Longrightarrow> ch \<notin> set ''(),:+-*/^'' \<Longrightarrow> 0 < length (word_caml (ch # cs))"
  by (auto simp: word_caml_def)

lemma skip_spaces_shorter: "length (skip_spaces x) \<le> length x"
  unfolding skip_spaces_def by (rule length_dropWhile_le)

lemma step_spaces_shorter:
  "0 < n \<Longrightarrow> (skip_spaces (drop n (ch # cs)), ch # cs) \<in> measure length"
  using skip_spaces_shorter [of "drop n (ch # cs)"] by simp

text \<open>The character loop of \<^verbatim>\<open>tokenize\<close> (caml-code/lexer.py 176-277) on one stripped
  line: string literal, punctuation, dot, number, word or keyword phrase, in this order.\<close>

function scan_caml :: "string \<Rightarrow> token list" where
  "scan_caml [] = []"
| "scan_caml (ch # cs) =
     (if ch = dquote then
        (case read_string_caml False [] cs of
           (s, rest) \<Rightarrow> (''STRING'', VStr s) # scan_caml (skip_spaces rest))
      else if ch \<in> set ''(),:+-*/^'' then ([ch], VStr [ch]) # scan_caml cs
      else if ch = CHR ''.'' then (''DOT'', VStr ''.'') # scan_caml cs
      else if is_digit ch \<or> (ch = CHR ''-'' \<and> cs \<noteq> [] \<and> is_digit (hd cs)) then
        number_token (match_number (ch # cs))
          # scan_caml (skip_spaces (drop (length (match_number (ch # cs))) (ch # cs)))
      else if \<not> is_space ch then
        (case phrase_caml (ch # cs) of
           Some (chosen, consumed) \<Rightarrow>
             keyword_token_caml chosen # scan_caml (skip_spaces (drop consumed (ch # cs)))
         | None \<Rightarrow>
             word_token_caml (word_caml (ch # cs))
               # scan_caml (skip_spaces (drop (length (word_caml (ch # cs))) (ch # cs))))
      else scan_caml cs)"
  by pat_completeness auto
termination
proof (relation "measure length", goal_cases)
  case 1
  show ?case by simp
next
  case (2 ch cs x y)
  then have "length y \<le> length cs"
    using read_string_caml_shorter [of False "[]" cs x y] by simp
  then show ?case using skip_spaces_shorter [of y] by simp
next
  case (3 ch cs)
  show ?case by simp
next
  case (4 ch cs)
  show ?case by simp
next
  case (5 ch cs)
  then have "0 < length (match_number (ch # cs))" by (intro match_number_pos) simp
  then show ?case by (rule step_spaces_shorter)
next
  case (6 ch cs)
  then have "0 < length (word_caml (ch # cs))" by (intro word_caml_pos) auto
  then show ?case by (rule step_spaces_shorter)
next
  case (7 ch cs chosen x y)
  then have "0 < y" by (intro phrase_caml_pos [of ch cs x y]) simp_all
  then show ?case by (rule step_spaces_shorter)
next
  case (8 ch cs)
  show ?case by simp
qed

declare scan_caml.simps [simp del]

definition tokenize_caml :: "string \<Rightarrow> error + line list" where
  "tokenize_caml raw =
     (case preprocess_caml raw of
        Inl e \<Rightarrow> Inl e
      | Inr lines \<Rightarrow> Inr (tokenize_lines scan_caml lines))"

section \<open>Example programs\<close>

text \<open>A string literal of the source language: the text between double quotes.\<close>

definition quoted :: "string \<Rightarrow> string" where
  "quoted s = dquote # s @ [dquote]"

text \<open>One statement that displays a string literal holding the comment marker, and one
  whose literal holds two articles and a period.\<close>

definition marker_text :: string where
  "marker_text = ''Display '' @ quoted ''a$b''"

definition article_text :: string where
  "article_text = ''Display '' @ quoted ''the a.b''"

text \<open>A program of three lines: a function of two parameters whose body is one call of
  \<^verbatim>\<open>add\<close>, and a call of that function with \<open>5\<close> and \<open>7\<close>.\<close>

definition scenario_d_text :: string where
  "scenario_d_text =
     ''Define function '' @ quoted ''addtwo'' @ '' which takes (x, y) and does:'' @ [newline]
     @ ''    Call '' @ quoted ''add'' @ '' (x, y)'' @ [newline]
     @ ''addtwo(5, 7)''"

definition scenario_d_lines :: "line list" where
  "scenario_d_lines =
     [(0, [(''DEFINE_FUNCTION'', VStr ''define function''), (''STRING'', VStr ''addtwo''),
           (''WHICH_TAKES'', VStr ''which takes''), (''('', VStr ''(''),
           (''IDENTIFIER'', VStr ''x''), ('','', VStr '',''), (''IDENTIFIER'', VStr ''y''),
           ('')'', VStr '')''), (''AND'', VStr ''and''), (''IDENTIFIER'', VStr ''does''),
           ('':'', VStr '':'')]),
      (4, [(''CALL_FUNCTION'', VStr ''call''), (''STRING'', VStr ''add''), (''('', VStr ''(''),
           (''IDENTIFIER'', VStr ''x''), ('','', VStr '',''), (''IDENTIFIER'', VStr ''y''),
           ('')'', VStr '')'')]),
      (0, [(''IDENTIFIER'', VStr ''addtwo''), (''('', VStr ''(''), (''INTEGER'', VInt 5),
           ('','', VStr '',''), (''INTEGER'', VInt 7), ('')'', VStr '')'')])]"

text \<open>The function of that program as the interpreters store it once its parameters and
  body are parsed.\<close>

definition addtwo_def :: "name \<times> string list \<times> node list" where
  "addtwo_def =
     (Some ''addtwo'', [''x'', ''y''], [FunctionCallNode (Some ''add'') [VStr ''x'', VStr ''y'']])"

section \<open>Value resolution order\<close>

text \<open>
  C1 (amended). For every string \<open>x\<close> used as an expression, \<^verbatim>\<open>_resolve_value\<close> tries
  the list namespace first, then the dict namespace, then the scalar namespace; it
  returns the stored value of the first namespace that contains \<open>x\<close> as a name, and
  \<open>x\<close> itself as a literal string when none contains it.
\<close>

theorem resolve_value_order:
  "resolve_value s (VStr x) =
     (if Some x \<in> dom (lists s) then VList (the (lists s (Some x)))
      else if Some x \<in> dom (dicts s) then VDict (the (dicts s (Some x)))
      else if Some x \<in> dom (variables s) then the (variables s (Some x))
      else VStr x)"
  by (auto simp: resolve_value_def dom_def split: option.splits)

theorem resolve_value_order_witness:
  "resolve_value ((init_interp [])\<lparr>variables := [Some ''x'' \<mapsto> VInt 1], dicts := [Some ''x'' \<mapsto> 3]\<rparr>)
     (VStr ''x'') = VDict 3
   \<and> resolve_value ((init_interp [])\<lparr>variables := [Some ''x'' \<mapsto> VInt 1]\<rparr>) (VStr ''x'') = VInt 1
   \<and> resolve_value (init_interp []) (VStr ''x'') = VStr ''x''"
  using resolve_value_order [of "(init_interp [])\<lparr>variables := [Some ''x'' \<mapsto> VInt 1], dicts := [Some ''x'' \<mapsto> 3]\<rparr>" "''x''"]
    resolve_value_order [of "(init_interp [])\<lparr>variables := [Some ''x'' \<mapsto> VInt 1]\<rparr>" "''x''"]
    resolve_value_order [of "init_interp []" "''x''"]
  by (simp add: init_interp_def)

text \<open>The claim as worded (scalar namespace first) fails where a name is both a scalar
  and a list: the code returns the list, the worded order the scalar.\<close>

theorem resolve_scalar_first_counterexample:
  "resolve_value ((init_interp [])\<lparr>variables := [Some ''x'' \<mapsto> VInt 1], lists := [Some ''x'' \<mapsto> 0]\<rparr>)
     (VStr ''x'') = VList 0
   \<and> resolve_scalar_first ((init_interp [])\<lparr>variables := [Some ''x'' \<mapsto> VInt 1], lists := [Some ''x'' \<mapsto> 0]\<rparr>)
     (VStr ''x'') = VInt 1"
  by (simp add: resolve_value_def resolve_scalar_first_def init_interp_def)

section \<open>The dispatchers on single statements\<close>

lemma visit_step_py_leaf:
  "visit_step_py H w k (ListAddNode n v) s = visit_ListAddNode n v s"
  "visit_step_py H w k (InteractNode p b) s = visit_InteractNode H p b s"
  "visit_step_py H w k (AssignNode n v) s = Ok VNone (set_var n v s)"
  "visit_step_py H w k (DivideNode n v) s = arith_update_py py_truediv n v s"
  "visit_step_py H w k (DisplayNode (DVal v) b) s =
     Ok VNone (py_print H (if b then bold_str H s (resolve_value s v) else resolve_value s v) s)"
  by (simp_all add: visit_step_py_def visit_leaf_py_def)

lemma visit_step_caml_leaf:
  "visit_step_caml H w k (ListAddNode n v) s = visit_ListAddNode n v s"
  "visit_step_caml H w k (InteractNode p b) s = visit_InteractNode H p b s"
  "visit_step_caml H w k (AssignNode n v) s = Ok VNone (set_var n v s)"
  "visit_step_caml H w k (DivideNode n v) s = arith_update_caml py_truediv n v s"
  "visit_step_caml H w k (DisplayNode (DVal v) b) s = display_out_caml H (resolve_value s v) b s"
  by (simp_all add: visit_step_caml_def visit_leaf_caml_def)

lemma visit_step_py_block:
  "visit_step_py H w k (FunctionCallNode f as) s = visit_FunctionCallNode_py H w f as s"
  "visit_step_py H w k (IfNode c body) s = visit_IfNode w c body s"
  "visit_step_py H w k (OrIfNode c body) s = visit_OrIfNode w c body s"
  "visit_step_py H w k (ForEachNode var it body) s = visit_ForEachNode_py w k var it body s"
  by (simp_all add: visit_step_py_def)

lemma visit_step_caml_block:
  "visit_step_caml H w k (FunctionCallNode f as) s = visit_FunctionCallNode_caml H w f as s"
  "visit_step_caml H w k (IfNode c body) s = visit_IfNode w c body s"
  "visit_step_caml H w k (OrIfNode c body) s = visit_OrIfNode w c body s"
  "visit_step_caml H w k (ForEachNode var it body) s = visit_ForEachNode_caml w k var it body s"
  by (simp_all add: visit_step_caml_def)

section \<open>Function calls with an unmatched name\<close>

text \<open>
  C4 (amended). Let the name of a function call match neither a user-defined function
  nor a callable of the module namespace. In the caml-code interpreter the call returns
  the bare name itself (as a literal string) and raises nothing; in the python_code
  interpreter the call raises the exception \<^verbatim>\<open>Function '<name>' not defined\<close>.
\<close>

theorem unmatched_call:
  assumes "funcs s f = None" and "find_builtin H f = None"
  shows "visit_caml H (Suc k) (FunctionCallNode f as) s = Ok (name_value f) s
         \<and> visit_py H (Suc k) (FunctionCallNode f as) s = Err (FunctionNotDefined f) s"
  using assms
  by (simp add: visit_step_py_block visit_step_caml_block visit_FunctionCallNode_py_def
      visit_FunctionCallNode_caml_def)

theorem unmatched_call_witness:
  "funcs (init_interp []) (Some ''foo'') = None \<and> find_builtin plain_host (Some ''foo'') = None
   \<and> visit_caml plain_host (Suc 0) (FunctionCallNode (Some ''foo'') [VInt 1]) (init_interp [])
       = Ok (VStr ''foo'') (init_interp [])
   \<and> visit_py plain_host (Suc 0) (FunctionCallNode (Some ''foo'') [VInt 1]) (init_interp [])
       = Err (FunctionNotDefined (Some ''foo'')) (init_interp [])"
proof -
  have a: "funcs (init_interp []) (Some ''foo'') = None"
    by (simp add: init_interp_def)
  have b: "find_builtin plain_host (Some ''foo'') = None"
    by (simp add: find_builtin_def plain_host_def module_namespace_def)
  show ?thesis
    using a b unmatched_call [OF a b, of 0 "[VInt 1]"] by (simp add: name_value_def)
qed

text \<open>The claim as worded (no error) fails in python_code: the call of the unknown name
  \<open>foo\<close> in a fresh interpreter raises instead of returning \<open>foo\<close>.\<close>

theorem unmatched_call_py_counterexample:
  "funcs (init_interp []) (Some ''foo'') = None \<and> find_builtin plain_host (Some ''foo'') = None
   \<and> visit_py plain_host (Suc 0) (FunctionCallNode (Some ''foo'') []) (init_interp [])
       \<noteq> Ok (VStr ''foo'') (init_interp [])
   \<and> visit_py plain_host (Suc 0) (FunctionCallNode (Some ''foo'') []) (init_interp [])
       = Err (FunctionNotDefined (Some ''foo'')) (init_interp [])"
  by (simp add: visit_step_py_block visit_FunctionCallNode_py_def init_interp_def find_builtin_def
      plain_host_def module_namespace_def)

section \<open>If and OrIf\<close>

text \<open>
  C5. \<^verbatim>\<open>If\<close> and \<^verbatim>\<open>OrIf\<close> are evaluated as independent conditionals, never chained: in
  every state each of them runs its body exactly when its own condition is true there.
  For the program of an \<^verbatim>\<open>If true\<close> block displaying \<open>a\<close> followed by an \<^verbatim>\<open>OrIf true\<close>
  block displaying \<open>b\<close>, run in a fresh interpreter, both bodies execute: the console
  receives the line \<open>a\<close> and then the line \<open>b\<close>.
\<close>

theorem if_orif_independent:
  "visit_py H (Suc k) (OrIfNode c body) s
     = (if evaluate_condition s c then exec_body (visit_py H k) body s else Ok VNone s)
   \<and> visit_py H (Suc k) (IfNode c body) s
     = (if evaluate_condition s c then exec_body (visit_py H k) body s else Ok VNone s)
   \<and> visit_caml H (Suc k) (OrIfNode c body) s
     = (if evaluate_condition s c then exec_body (visit_caml H k) body s else Ok VNone s)
   \<and> visit_caml H (Suc k) (IfNode c body) s
     = (if evaluate_condition s c then exec_body (visit_caml H k) body s else Ok VNone s)
   \<and> execute_py H (Suc (Suc k))
        [IfNode (VStr ''true'') [DisplayNode (DVal (VStr ''a'')) False],
         OrIfNode (VStr ''true'') [DisplayNode (DVal (VStr ''b'')) False]] (init_interp inp)
     = Ok VNone ((init_interp inp)\<lparr>stdout := [''a\<newline>'', ''b\<newline>'']\<rparr>)
   \<and> execute_caml H (Suc (Suc k))
        [IfNode (VStr ''true'') [DisplayNode (DVal (VStr ''a'')) False],
         OrIfNode (VStr ''true'') [DisplayNode (DVal (VStr ''b'')) False]] (init_interp inp)
     = mainloop H ((init_interp inp)\<lparr>stdout := [''a\<newline>'', ''b\<newline>'']\<rparr>)"
  by (simp add: visit_step_py_block visit_step_caml_block visit_step_py_leaf visit_step_caml_leaf
      visit_IfNode_def visit_OrIfNode_def execute_py_def execute_caml_def evaluate_condition_def
      truthy_def resolve_value_def init_interp_def py_print_def py_str_def display_out_caml_def)

theorem if_orif_independent_witness:
  "execute_py plain_host (Suc (Suc 0))
        [IfNode (VStr ''true'') [DisplayNode (DVal (VStr ''a'')) False],
         OrIfNode (VStr ''true'') [DisplayNode (DVal (VStr ''b'')) False]] (init_interp [])
     = Ok VNone ((init_interp [])\<lparr>stdout := [''a\<newline>'', ''b\<newline>'']\<rparr>)
   \<and> execute_caml plain_host (Suc (Suc 0))
        [IfNode (VStr ''true'') [DisplayNode (DVal (VStr ''a'')) False],
         OrIfNode (VStr ''true'') [DisplayNode (DVal (VStr ''b'')) False]] (init_interp [])
     = Ok VNone ((init_interp [])\<lparr>stdout := [''a\<newline>'', ''b\<newline>'']\<rparr>)"
  using if_orif_independent [of plain_host 0 VNone "[]" "init_interp []" "[]"]
  by (simp add: plain_host_def)

section \<open>Division by zero\<close>

text \<open>
  C8. For the program \<^verbatim>\<open>Assign 10 to x\<close>, \<^verbatim>\<open>Divide x by 0\<close> followed by any further
  statements, the run halts with \<^verbatim>\<open>ZeroDivisionError\<close>: the exception leaves \<^verbatim>\<open>execute\<close>
  with the state reached by the assignment, so no later statement has executed.
\<close>

theorem zero_division_halts:
  "execute_py H (Suc k) (AssignNode (Some ''x'') (VInt 10) # DivideNode (Some ''x'') (VInt 0) # rest) s
     = Err ZeroDivisionError (set_var (Some ''x'') (VInt 10) s)
   \<and> execute_caml H (Suc k) (AssignNode (Some ''x'') (VInt 10) # DivideNode (Some ''x'') (VInt 0) # rest) s
     = Err ZeroDivisionError (set_var (Some ''x'') (VInt 10) s)"
  by (simp add: execute_py_def execute_caml_def visit_step_py_leaf visit_step_caml_leaf
      arith_update_py_def arith_update_caml_def py_truediv_def set_var_def get_var_def
      resolve_value_def is_number_def num_def)

theorem zero_division_halts_witness:
  "execute_py plain_host (Suc 0)
     [AssignNode (Some ''x'') (VInt 10), DivideNode (Some ''x'') (VInt 0),
      DisplayNode (DVal (VStr ''x'')) False] (init_interp [])
     = Err ZeroDivisionError ((init_interp [])\<lparr>variables := [Some ''x'' \<mapsto> VInt 10]\<rparr>)"
  using zero_division_halts [of plain_host 0 "[DisplayNode (DVal (VStr ''x'')) False]" "init_interp []"]
  by (simp add: set_var_def resolve_value_def init_interp_def)

section \<open>Interact\<close>

text \<open>
  C9. For every Interact statement the evaluator writes the resolved prompt (wrapped in
  \<^verbatim>\<open>**\<close> when the statement is bold) suffixed with \<^verbatim>\<open>": "\<close>, reads one line of input
  and returns the raw text; when the read is interrupted (\<^verbatim>\<open>KeyboardInterrupt\<close>) it
  returns the empty string. At end of input the \<^verbatim>\<open>EOFError\<close> of \<^verbatim>\<open>input\<close> is not caught.
\<close>

theorem interact_prompt_and_input:
  "visit_py H (Suc k) (InteractNode p bold) s = visit_InteractNode H p bold s
   \<and> visit_caml H (Suc k) (InteractNode p bold) s = visit_InteractNode H p bold s
   \<and> visit_InteractNode H p bold s =
       (case stdin s of
          Line l # rest \<Rightarrow>
            Ok (VStr l)
              (s\<lparr>stdout := stdout s @
                   [py_str H s (if bold then bold_str H s (resolve_value s p) else resolve_value s p) @ '': ''],
                 stdin := rest\<rparr>)
        | Interrupt # rest \<Rightarrow>
            Ok (VStr '''')
              (s\<lparr>stdout := stdout s @
                   [py_str H s (if bold then bold_str H s (resolve_value s p) else resolve_value s p) @ '': ''],
                 stdin := rest\<rparr>)
        | [] \<Rightarrow>
            Err EOFError
              (s\<lparr>stdout := stdout s @
                   [py_str H s (if bold then bold_str H s (resolve_value s p) else resolve_value s p) @ '': '']\<rparr>))"
  by (simp add: visit_step_py_leaf visit_step_caml_leaf visit_InteractNode_def py_input_def Let_def
      split: list.splits in_event.splits)

theorem interact_prompt_and_input_witness:
  "visit_py plain_host (Suc 0) (InteractNode (VStr ''Name'') False) (init_interp [Line ''Ann''])
     = Ok (VStr ''Ann'') ((init_interp [])\<lparr>stdout := [''Name: '']\<rparr>)
   \<and> visit_caml plain_host (Suc 0) (InteractNode (VStr ''Name'') False) (init_interp [Interrupt, Line ''Ann''])
     = Ok (VStr '''') ((init_interp [Line ''Ann''])\<lparr>stdout := [''Name: '']\<rparr>)"
  using interact_prompt_and_input [of plain_host 0 "VStr ''Name''" False "init_interp [Line ''Ann'']"]
    interact_prompt_and_input [of plain_host 0 "VStr ''Name''" False "init_interp [Interrupt, Line ''Ann'']"]
  by (simp add: init_interp_def resolve_value_def py_str_def)

section \<open>ListAdd on a missing list\<close>

text \<open>
  C10. For every ListAdd statement that names a list absent from the list namespace,
  evaluation does not raise: a fresh empty list is created under that name and the
  resolved value appended, so afterwards the named list exists and ends with that value.
\<close>

theorem listadd_creates_missing_list:
  assumes "n \<notin> dom (lists s)"
  shows "\<exists>s'. visit_py H (Suc k) (ListAddNode n v) s = Ok VNone s'
           \<and> visit_caml H (Suc k) (ListAddNode n v) s = Ok VNone s'
           \<and> lists s' n = Some (list_next s)
           \<and> list_heap s' (list_next s) = [resolve_value s v]
           \<and> last (list_heap s' (list_next s)) = resolve_value s v"
  using assms
  by (simp add: visit_step_py_leaf visit_step_caml_leaf visit_ListAddNode_def alloc_list_def Let_def)

theorem listadd_creates_missing_list_witness:
  "Some ''xs'' \<notin> dom (lists (init_interp []))
   \<and> (\<exists>s'. visit_py plain_host (Suc 0) (ListAddNode (Some ''xs'') (VInt 4)) (init_interp []) = Ok VNone s'
           \<and> visit_caml plain_host (Suc 0) (ListAddNode (Some ''xs'') (VInt 4)) (init_interp []) = Ok VNone s'
           \<and> lists s' (Some ''xs'') = Some 0
           \<and> list_heap s' 0 = [VInt 4]
           \<and> last (list_heap s' 0) = VInt 4)"
proof -
  have a: "Some ''xs'' \<notin> dom (lists (init_interp []))"
    by (simp add: init_interp_def)
  show ?thesis
    using a listadd_creates_missing_list [OF a, of plain_host 0 "VInt 4"]
    by (simp add: init_interp_def resolve_value_def)
qed

section \<open>For each\<close>

lemma list_heap_set_var [simp]: "list_heap (set_var n x s) = list_heap s"
  by (simp add: set_var_def)

lemma foreach_loop_items:
  "leaves_list v var body a (drop i (list_heap s a)) s \<Longrightarrow> length (list_heap s a) - i < n \<Longrightarrow>
   foreach_loop v n var body a i s = foreach_items v var body (drop i (list_heap s a)) s"
proof (induction n arbitrary: i s)
  case 0
  then show ?case by simp
next
  case (Suc n)
  show ?case
  proof (cases "i < length (list_heap s a)")
    case False
    then show ?thesis by simp
  next
    case True
    have d: "drop i (list_heap s a) = list_heap s a ! i # drop (Suc i) (list_heap s a)"
      using True by (simp add: Cons_nth_drop_Suc)
    show ?thesis
    proof (cases "exec_body v body (set_var var (list_heap s a ! i) s)")
      case (Ok r s')
      have h: "list_heap s' a = list_heap s a"
        and l: "leaves_list v var body a (drop (Suc i) (list_heap s a)) s'"
        using Suc.prems(1) Ok unfolding d by simp_all
      have "length (list_heap s' a) - Suc i < n"
        using Suc.prems(2) True h by simp
      moreover have "leaves_list v var body a (drop (Suc i) (list_heap s' a)) s'"
        using l h by simp
      ultimately have "foreach_loop v n var body a (Suc i) s'
                   = foreach_items v var body (drop (Suc i) (list_heap s' a)) s'"
        by (intro Suc.IH)
      then show ?thesis using True Ok d h by simp
    next
      case (Err e s')
      then show ?thesis using True d by simp
    next
      case Timeout
      then show ?thesis using True d by simp
    qed
  qed
qed

lemma visit_Display:
  "visit_py H (Suc k) (DisplayNode (DVal v) b) s =
     Ok VNone (py_print H (if b then bold_str H s (resolve_value s v) else resolve_value s v) s)"
  "visit_caml H (Suc k) (DisplayNode (DVal v) b) s = display_out_caml H (resolve_value s v) b s"
  by (simp_all add: visit_step_py_leaf visit_step_caml_leaf)

lemma visit_ListAdd:
  "visit_py H (Suc k) (ListAddNode n v) s = visit_ListAddNode n v s"
  "visit_caml H (Suc k) (ListAddNode n v) s = visit_ListAddNode n v s"
  by (simp_all add: visit_step_py_leaf visit_step_caml_leaf)

text \<open>
  C7 (amended). For every ForEach statement the iterable name is looked up in the list
  namespace and then in the scalar namespace. If the list namespace does not hold it
  and the scalar namespace holds no truthy value for it (the name is unbound, or bound
  to \<open>0\<close>, an empty string, an empty list or \<open>None\<close>), the statement executes nothing and
  raises no error. If the list namespace does not hold it and the scalar is truthy and
  not a list, the statement fails with \<^verbatim>\<open>TypeError\<close>. If the name resolves to a list (the
  list namespace holds a list for it, non-empty in python_code; or the list namespace
  does not hold it and the scalar namespace holds a list) and every execution of the body
  in the loop leaves that list object as it is, the loop variable is bound in the scalar
  namespace once per item in order and the body executes each time.
\<close>

theorem foreach_iterable_and_iteration:
  "(lists s it = None \<and> \<not> truthy s (get_var s it) \<longrightarrow>
      visit_py H (Suc n) (ForEachNode var it body) s = Ok VNone s
      \<and> visit_caml H (Suc n) (ForEachNode var it body) s = Ok VNone s)
   \<and> (lists s it = None \<and> truthy s (get_var s it) \<and> \<not> is_list (get_var s it) \<longrightarrow>
      visit_py H (Suc n) (ForEachNode var it body) s = Err TypeError s
      \<and> visit_caml H (Suc n) (ForEachNode var it body) s = Err TypeError s)
   \<and> ((lists s it = Some a \<and> list_heap s a \<noteq> [] \<or> lists s it = None \<and> get_var s it = VList a)
       \<and> length (list_heap s a) < n
       \<and> leaves_list (visit_py H n) var body a (list_heap s a) s \<longrightarrow>
      visit_py H (Suc n) (ForEachNode var it body) s
        = foreach_items (visit_py H n) var body (list_heap s a) s)
   \<and> ((lists s it = Some a \<or> lists s it = None \<and> get_var s it = VList a)
       \<and> length (list_heap s a) < n
       \<and> leaves_list (visit_caml H n) var body a (list_heap s a) s \<longrightarrow>
      visit_caml H (Suc n) (ForEachNode var it body) s
        = foreach_items (visit_caml H n) var body (list_heap s a) s)"
proof (intro conjI impI)
  assume "lists s it = None \<and> \<not> truthy s (get_var s it)"
  then show "visit_py H (Suc n) (ForEachNode var it body) s = Ok VNone s"
    by (simp add: visit_step_py_block visit_ForEachNode_py_def foreach_iterable_py_def truthy_def)
next
  assume "lists s it = None \<and> \<not> truthy s (get_var s it)"
  then show "visit_caml H (Suc n) (ForEachNode var it body) s = Ok VNone s"
    by (simp add: visit_step_caml_block visit_ForEachNode_caml_def foreach_iterable_caml_def)
next
  assume "lists s it = None \<and> truthy s (get_var s it) \<and> \<not> is_list (get_var s it)"
  then show "visit_py H (Suc n) (ForEachNode var it body) s = Err TypeError s"
    by (cases "get_var s it")
      (simp_all add: visit_step_py_block visit_ForEachNode_py_def foreach_iterable_py_def truthy_def
        is_list_def)
next
  assume "lists s it = None \<and> truthy s (get_var s it) \<and> \<not> is_list (get_var s it)"
  then show "visit_caml H (Suc n) (ForEachNode var it body) s = Err TypeError s"
    by (cases "get_var s it")
      (simp_all add: visit_step_caml_block visit_ForEachNode_caml_def foreach_iterable_caml_def
        is_list_def)
next
  assume a: "(lists s it = Some a \<and> list_heap s a \<noteq> [] \<or> lists s it = None \<and> get_var s it = VList a)
             \<and> length (list_heap s a) < n
             \<and> leaves_list (visit_py H n) var body a (list_heap s a) s"
  then have loop: "foreach_loop (visit_py H n) n var body a 0 s
               = foreach_items (visit_py H n) var body (drop 0 (list_heap s a)) s"
    by (intro foreach_loop_items) simp_all
  show "visit_py H (Suc n) (ForEachNode var it body) s
               = foreach_items (visit_py H n) var body (list_heap s a) s"
  proof (cases "list_heap s a = []")
    case True
    then show ?thesis
      using a by (auto simp: visit_step_py_block visit_ForEachNode_py_def foreach_iterable_py_def truthy_def)
  next
    case False
    then show ?thesis
      using a loop
      by (auto simp: visit_step_py_block visit_ForEachNode_py_def foreach_iterable_py_def truthy_def)
  qed
next
  assume a: "(lists s it = Some a \<or> lists s it = None \<and> get_var s it = VList a)
             \<and> length (list_heap s a) < n
             \<and> leaves_list (visit_caml H n) var body a (list_heap s a) s"
  then have loop: "foreach_loop (visit_caml H n) n var body a 0 s
               = foreach_items (visit_caml H n) var body (drop 0 (list_heap s a)) s"
    by (intro foreach_loop_items) simp_all
  show "visit_caml H (Suc n) (ForEachNode var it body) s
               = foreach_items (visit_caml H n) var body (list_heap s a) s"
  proof (cases "list_heap s a = []")
    case True
    then show ?thesis
      using a loop
      by (auto simp: visit_step_caml_block visit_ForEachNode_caml_def foreach_iterable_caml_def truthy_def)
  next
    case False
    then show ?thesis
      using a loop
      by (auto simp: visit_step_caml_block visit_ForEachNode_caml_def foreach_iterable_caml_def truthy_def)
  qed
qed

theorem foreach_iterable_and_iteration_witness:
  "visit_py plain_host (Suc 4) (ForEachNode (Some ''item'') (Some ''z'') [DisplayNode (DVal (VStr ''item'')) False]) demo_state
     = Ok VNone demo_state
   \<and> visit_caml plain_host (Suc 4) (ForEachNode (Some ''item'') (Some ''n'') [DisplayNode (DVal (VStr ''item'')) False]) demo_state
     = Err TypeError demo_state
   \<and> visit_py plain_host (Suc 4)
        (ForEachNode (Some ''item'') (Some ''mylist'')
           [ListAddNode (Some ''seen'') (VStr ''item''), DisplayNode (DVal (VStr ''item'')) False])
        demo_state
     = Ok VNone (demo_state\<lparr>variables := (variables demo_state)(Some ''item'' \<mapsto> VInt 3),
                              lists := (lists demo_state)(Some ''seen'' \<mapsto> 1),
                              list_heap := (list_heap demo_state)(1 := [VInt 1, VInt 2, VInt 3]),
                              list_next := 2,
                              stdout := [''1\<newline>'', ''2\<newline>'', ''3\<newline>'']\<rparr>)
   \<and> visit_caml plain_host (Suc 4) (ForEachNode (Some ''item'') (Some ''alias'') [DisplayNode (DVal (VStr ''item'')) False]) demo_state
     = Ok VNone (demo_state\<lparr>variables := (variables demo_state)(Some ''item'' \<mapsto> VInt 3),
                              stdout := [''1\<newline>'', ''2\<newline>'', ''3\<newline>'']\<rparr>)"
proof -
  let ?show = "[DisplayNode (DVal (VStr ''item'')) False]"
  let ?body = "[ListAddNode (Some ''seen'') (VStr ''item''), DisplayNode (DVal (VStr ''item'')) False]"
  have e1: "visit_py plain_host 4 (DisplayNode (DVal v) False) t
              = Ok VNone (py_print plain_host (resolve_value t v) t)" for v t
    using visit_Display(1) [of plain_host 3 v False t] by (simp del: visit_py.simps)
  have e2: "visit_caml plain_host 4 (DisplayNode (DVal v) False) t
              = display_out_caml plain_host (resolve_value t v) False t" for v t
    using visit_Display(2) [of plain_host 3 v False t] by (simp del: visit_caml.simps)
  have e3: "visit_py plain_host 4 (ListAddNode m v) t = visit_ListAddNode m v t" for m v t
    using visit_ListAdd(1) [of plain_host 3 m v t] by (simp del: visit_py.simps)
  have h: "list_heap demo_state 0 = [VInt 1, VInt 2, VInt 3]"
    by (simp add: demo_state_def)
  have l1: "leaves_list (visit_py plain_host 4) (Some ''item'') ?body 0 (list_heap demo_state 0) demo_state"
    unfolding h
    by (simp add: e1 e3 demo_state_def init_interp_def set_var_def resolve_value_def
        visit_ListAddNode_def alloc_list_def py_print_def Let_def
        del: visit_py.simps visit_caml.simps)
  have l2: "leaves_list (visit_caml plain_host 4) (Some ''item'') ?show 0 (list_heap demo_state 0) demo_state"
    unfolding h
    by (simp add: e2 demo_state_def init_interp_def set_var_def resolve_value_def
        display_out_caml_def py_print_def Let_def
        del: visit_py.simps visit_caml.simps)
  have a: "visit_py plain_host (Suc 4) (ForEachNode (Some ''item'') (Some ''z'') ?show) demo_state
             = Ok VNone demo_state"
    using foreach_iterable_and_iteration [of demo_state "Some ''z''" plain_host 4 "Some ''item''" ?show 0]
    by (simp add: demo_state_def init_interp_def get_var_def truthy_def del: visit_py.simps visit_caml.simps)
  have b: "visit_caml plain_host (Suc 4) (ForEachNode (Some ''item'') (Some ''n'') ?show) demo_state
             = Err TypeError demo_state"
    using foreach_iterable_and_iteration [of demo_state "Some ''n''" plain_host 4 "Some ''item''" ?show 0]
    by (simp add: demo_state_def init_interp_def get_var_def truthy_def is_list_def
        del: visit_py.simps visit_caml.simps)
  have c: "visit_py plain_host (Suc 4) (ForEachNode (Some ''item'') (Some ''mylist'') ?body) demo_state
             = foreach_items (visit_py plain_host 4) (Some ''item'') ?body [VInt 1, VInt 2, VInt 3] demo_state"
    using l1 foreach_iterable_and_iteration [of demo_state "Some ''mylist''" plain_host 4 "Some ''item''" ?body 0]
    by (simp add: demo_state_def init_interp_def del: visit_py.simps visit_caml.simps)
  have d: "visit_caml plain_host (Suc 4) (ForEachNode (Some ''item'') (Some ''alias'') ?show) demo_state
             = foreach_items (visit_caml plain_host 4) (Some ''item'') ?show [VInt 1, VInt 2, VInt 3] demo_state"
    using l2 foreach_iterable_and_iteration [of demo_state "Some ''alias''" plain_host 4 "Some ''item''" ?show 0]
    by (simp add: demo_state_def init_interp_def get_var_def del: visit_py.simps visit_caml.simps)
  show ?thesis
    unfolding a b c d
    by (simp add: e1 e2 e3 demo_state_def init_interp_def set_var_def resolve_value_def
        visit_ListAddNode_def alloc_list_def
        py_print_def py_str_def str_int_def digits.simps display_out_caml_def Let_def
        del: visit_py.simps visit_caml.simps)
qed

text \<open>The claim as worded (anything but a list is an error) fails: an unbound name
  does not resolve to a list, and the statement returns without error.\<close>

theorem foreach_non_list_counterexample:
  "resolve_value (init_interp []) (VStr ''nope'') = VStr ''nope''
   \<and> visit_py plain_host (Suc (Suc 0))
        (ForEachNode (Some ''item'') (Some ''nope'') [DisplayNode (DVal (VStr ''item'')) False]) (init_interp [])
       = Ok VNone (init_interp [])
   \<and> visit_caml plain_host (Suc (Suc 0))
        (ForEachNode (Some ''item'') (Some ''nope'') [DisplayNode (DVal (VStr ''item'')) False]) (init_interp [])
       = Ok VNone (init_interp [])"
  by (simp add: visit_step_py_block visit_step_caml_block visit_ForEachNode_py_def
      visit_ForEachNode_caml_def foreach_iterable_py_def foreach_iterable_caml_def truthy_def
      get_var_def init_interp_def resolve_value_def)

section \<open>Indented blocks\<close>

lemma collect_block_None:
  "collect_block d ls (Suc p) None = collect_block d ls (Suc p) (Some (fst (ls ! p)))"
  by (simp add: collect_block.simps)

lemma collect_block_next:
  "collect_block d ls p (Some (if p < length ls then fst (ls ! p) else 0)) = ([], 0)"
  by (simp add: collect_block.simps)

lemma take_length_takeWhile: "take (length (takeWhile P xs)) xs = takeWhile P xs"
  by (induction xs) auto

lemma parser_counts:
  "(p < length ls \<longrightarrow>
      Suc (p + snd (parse_statement d ls p)) \<le> length ls
      \<and> list_all (\<lambda>l. fst (ls ! p) < fst l) (take (snd (parse_statement d ls p)) (drop (Suc p) ls)))"
  "snd (collect_block d ls p' par) =
     (if p' < length ls
         \<and> (case par of Some i \<Rightarrow> i | None \<Rightarrow> (if p' = 0 then 0 else fst (ls ! (p' - 1)))) < fst (ls ! p')
      then length (block_lines (fst (ls ! p')) (drop p' ls)) else 0)"
  "snd (collect_loop d ls q b) = length (block_lines b (drop q ls))"
proof (induction d ls p and d ls p' par and d ls q b rule: parse_statement_collect_block_collect_loop.induct)
  case (1 d ls p)
  show ?case
  proof (intro impI)
    assume lt: "p < length ls"
    show "Suc (p + snd (parse_statement d ls p)) \<le> length ls
      \<and> list_all (\<lambda>l. fst (ls ! p) < fst l) (take (snd (parse_statement d ls p)) (drop (Suc p) ls))"
    proof (cases "d (snd (ls ! p))")
      case (Leaf n)
      then show ?thesis using lt by (simp add: parse_statement.simps)
    next
      case (Block mk pr)
      let ?par = "(case pr of OfHeader \<Rightarrow> Some (fst (ls ! p)) | OfPrevious \<Rightarrow> None
                    | OfNext \<Rightarrow> Some (if Suc p < length ls then fst (ls ! Suc p) else 0))"
      let ?k = "snd (collect_block d ls (Suc p) ?par)"
      have k: "snd (parse_statement d ls p) = ?k"
        using lt Block by (simp add: parse_statement.simps split: prod.splits)
      have ih: "?k = (if Suc p < length ls
         \<and> (case ?par of Some i \<Rightarrow> i | None \<Rightarrow> (if Suc p = 0 then 0 else fst (ls ! (Suc p - 1)))) < fst (ls ! Suc p)
        then length (block_lines (fst (ls ! Suc p)) (drop (Suc p) ls)) else 0)"
        using "1.IH" [OF lt Block] by simp
      show ?thesis
      proof (cases "?k = 0")
        case True
        then show ?thesis using lt k by simp
      next
        case False
        then have c: "Suc p < length ls" and
          kk: "?k = length (block_lines (fst (ls ! Suc p)) (drop (Suc p) ls))" and
          pa: "(case ?par of Some i \<Rightarrow> i | None \<Rightarrow> fst (ls ! p)) < fst (ls ! Suc p)"
          using ih by (cases pr; auto split: if_splits)+
        have pr: "pr \<noteq> OfNext" using pa c by (cases pr) auto
        then have hd: "fst (ls ! p) < fst (ls ! Suc p)" using pa by (cases pr) auto
        have le: "?k \<le> length (drop (Suc p) ls)"
          unfolding kk block_lines_def by (rule length_takeWhile_le)
        have tk: "take ?k (drop (Suc p) ls) = block_lines (fst (ls ! Suc p)) (drop (Suc p) ls)"
          unfolding kk block_lines_def by (rule take_length_takeWhile)
        have la: "list_all (\<lambda>l. fst (ls ! p) < fst l) (take ?k (drop (Suc p) ls))"
          unfolding tk block_lines_def list_all_iff
          using hd by (auto dest!: set_takeWhileD)
        have "?k \<le> length ls - Suc p" using le by (simp only: length_drop)
        then have "Suc (p + ?k) \<le> length ls" using c by linarith
        then show ?thesis using la unfolding k by (rule conjI)
      qed
    qed
  qed
next
  case (2 d ls p parent_indent)
  show ?case
    using "2.IH" by (simp add: collect_block.simps Let_def)
next
  case (3 d ls p base_indent)
  show ?case
  proof (cases "p < length ls \<and> base_indent \<le> fst (ls ! p)")
    case False
    then show ?thesis
      by (cases "p < length ls")
        (simp_all add: collect_loop.simps block_lines_def Cons_nth_drop_Suc [symmetric])
  next
    case True
    then have lt: "p < length ls" and ge: "base_indent \<le> fst (ls ! p)" by simp_all
    obtain n k where s: "parse_statement d ls p = (n, k)" by (cases "parse_statement d ls p")
    have k1: "Suc (p + k) \<le> length ls"
      and k2: "list_all (\<lambda>l. fst (ls ! p) < fst l) (take k (drop (Suc p) ls))"
      using "3.IH"(1) [OF True] lt s by simp_all
    have ih: "snd (collect_loop d ls (Suc (p + k)) base_indent)
                = length (block_lines base_indent (drop (Suc (p + k)) ls))"
      using "3.IH"(2) [OF True s [symmetric]] .
    have sp: "drop (Suc p) ls = take k (drop (Suc p) ls) @ drop (Suc (p + k)) ls"
      by (metis add_Suc_right add_Suc drop_drop append_take_drop_id add.commute)
    have all: "\<forall>l \<in> set (take k (drop (Suc p) ls)). base_indent \<le> fst l"
      using k2 ge by (auto simp: list_all_iff)
    have "block_lines base_indent (drop (Suc p) ls)
            = take k (drop (Suc p) ls) @ block_lines base_indent (drop (Suc (p + k)) ls)"
      unfolding block_lines_def using all by (subst sp) (simp add: takeWhile_append2)
    moreover have "length (take k (drop (Suc p) ls)) = k" using k1 by simp
    moreover have "block_lines base_indent (drop p ls)
                     = ls ! p # block_lines base_indent (drop (Suc p) ls)"
      using lt ge by (simp add: block_lines_def Cons_nth_drop_Suc [symmetric])
    ultimately have "length (block_lines base_indent (drop p ls))
                       = Suc (k + length (block_lines base_indent (drop (Suc (p + k)) ls)))"
      by simp
    then show ?thesis
      using True s ih by (auto simp: collect_loop.simps [of d ls p] split: prod.splits)
  qed
qed

lemma block_lines_Cons:
  "p < length ls \<Longrightarrow> b \<le> fst (ls ! p) \<Longrightarrow>
   block_lines b (drop p ls) = ls ! p # block_lines b (drop (Suc p) ls)"
  by (simp add: block_lines_def Cons_nth_drop_Suc [symmetric])

lemma block_lines_Nil:
  "\<not> (p < length ls \<and> b \<le> fst (ls ! p)) \<Longrightarrow> block_lines b (drop p ls) = []"
  by (cases "p < length ls") (simp_all add: block_lines_def Cons_nth_drop_Suc [symmetric])

lemma block_lines_eq_Cons:
  assumes "block_lines b (drop q ls) = x # xs"
  shows "q < length ls \<and> ls ! q = x \<and> b \<le> fst x \<and> block_lines b (drop (Suc q) ls) = xs"
proof -
  have "q < length ls \<and> b \<le> fst (ls ! q)"
    using assms block_lines_Nil [of q ls b] by fastforce
  then show ?thesis using assms block_lines_Cons [of q ls b] by simp
qed

lemma block_lines_mono:
  "c \<le> b \<Longrightarrow> block_lines b (block_lines c xs) = block_lines b xs"
  by (induction xs) (auto simp: block_lines_def)

lemma block_lines_idem: "block_lines b (block_lines b xs) = block_lines b xs"
  by (rule block_lines_mono) simp

lemma block_lines_after_statement:
  assumes "p < length ls" and "b \<le> fst (ls ! p)" and "parse_statement d ls p = (n, k)"
  shows "block_lines b (drop (Suc (p + k)) ls) = drop (Suc k) (block_lines b (drop p ls))"
proof -
  have k1: "Suc (p + k) \<le> length ls"
    and k2: "list_all (\<lambda>l. fst (ls ! p) < fst l) (take k (drop (Suc p) ls))"
    using parser_counts(1) [of p ls d] assms by simp_all
  have sp: "drop (Suc p) ls = take k (drop (Suc p) ls) @ drop (Suc (p + k)) ls"
    by (metis add_Suc_right add_Suc drop_drop append_take_drop_id add.commute)
  have all: "\<forall>l \<in> set (take k (drop (Suc p) ls)). b \<le> fst l"
    using k2 assms(2) by (auto simp: list_all_iff)
  have "block_lines b (drop (Suc p) ls)
          = take k (drop (Suc p) ls) @ block_lines b (drop (Suc (p + k)) ls)"
    unfolding block_lines_def using all by (subst sp) (simp add: takeWhile_append2)
  moreover have "length (take k (drop (Suc p) ls)) = k" using k1 by simp
  ultimately show ?thesis
    using block_lines_Cons [OF assms(1,2)] by simp
qed

lemma collect_block_unfold:
  "collect_block d ls p par =
     (if p < length ls \<and> resolved ls p par < fst (ls ! p) then collect_loop d ls p (fst (ls ! p))
      else ([], 0))"
  by (auto simp: collect_block.simps resolved_def Let_def)

lemma parser_local:
  "\<forall>B q c. block_lines c (drop p A) = block_lines c (drop q B) \<and> p < length A \<and> c \<le> fst (A ! p)
      \<longrightarrow> parse_statement d A p = parse_statement d B q"
  "\<forall>B q c par'. block_lines c (drop p' A) = block_lines c (drop q B)
      \<and> resolved A p' par = resolved B q par' \<and> c \<le> resolved A p' par
      \<longrightarrow> collect_block d A p' par = collect_block d B q par'"
  "\<forall>B q. block_lines b (drop p'' A) = block_lines b (drop q B)
      \<longrightarrow> collect_loop d A p'' b = collect_loop d B q b"
proof (induction d A p and d A p' par and d A p'' b rule: parse_statement_collect_block_collect_loop.induct)
  case (1 d A p)
  show ?case
  proof (intro allI impI, elim conjE)
    fix B q c
    assume ag: "block_lines c (drop p A) = block_lines c (drop q B)"
      and lt: "p < length A" and ge: "c \<le> fst (A ! p)"
    have "block_lines c (drop q B) = A ! p # block_lines c (drop (Suc p) A)"
      using block_lines_Cons [OF lt ge] ag by simp
    from block_lines_eq_Cons [OF this]
    have qlt: "q < length B" and eq: "B ! q = A ! p"
      and ag': "block_lines c (drop (Suc p) A) = block_lines c (drop (Suc q) B)" by simp_all
    show "parse_statement d A p = parse_statement d B q"
    proof (cases "d (snd (A ! p))")
      case (Leaf n)
      then show ?thesis using lt qlt eq by (simp add: parse_statement.simps)
    next
      case (Block mk pr)
      show ?thesis
      proof (cases pr)
        case OfNext
        then show ?thesis
          using Block lt qlt eq collect_block_next [of d A "Suc p"] collect_block_next [of d B "Suc q"]
          by (simp add: parse_statement.simps)
      next
        case OfHeader
        have r: "resolved A (Suc p) (Some (fst (A ! p))) = resolved B (Suc q) (Some (fst (A ! p)))"
          "c \<le> resolved A (Suc p) (Some (fst (A ! p)))"
          using ge by (simp_all add: resolved_def)
        have "collect_block d A (Suc p) (Some (fst (A ! p))) = collect_block d B (Suc q) (Some (fst (A ! p)))"
          using "1.IH" [OF lt Block, unfolded OfHeader parent.case] ag' r by blast
        then show ?thesis
          using Block OfHeader lt qlt eq by (simp add: parse_statement.simps)
      next
        case OfPrevious
        have r: "resolved A (Suc p) None = resolved B (Suc q) None"
          "c \<le> resolved A (Suc p) None"
          using ge eq by (simp_all add: resolved_def)
        have "collect_block d A (Suc p) None = collect_block d B (Suc q) None"
          using "1.IH" [OF lt Block, unfolded OfPrevious parent.case] ag' r by blast
        then show ?thesis
          using Block OfPrevious lt qlt eq by (simp add: parse_statement.simps)
      qed
    qed
  qed
next
  case (2 d A p par)
  show ?case
  proof (intro allI impI, elim conjE)
    fix B q c par'
    assume ag: "block_lines c (drop p A) = block_lines c (drop q B)"
      and re: "resolved A p par = resolved B q par'" and ge: "c \<le> resolved A p par"
    show "collect_block d A p par = collect_block d B q par'"
    proof (cases "p < length A \<and> c \<le> fst (A ! p)")
      case False
      then have "block_lines c (drop q B) = []" using ag block_lines_Nil [of p A c] by simp
      then have "\<not> (q < length B \<and> c \<le> fst (B ! q))"
        using block_lines_Cons [of q B c] by auto
      then show ?thesis
        using False ge re by (auto simp: collect_block_unfold)
    next
      case True
      then have lt: "p < length A" and gi: "c \<le> fst (A ! p)" by simp_all
      have "block_lines c (drop q B) = A ! p # block_lines c (drop (Suc p) A)"
        using block_lines_Cons [OF lt gi] ag by simp
      from block_lines_eq_Cons [OF this]
      have qlt: "q < length B" and eq: "B ! q = A ! p" by simp_all
      show ?thesis
      proof (cases "resolved A p par < fst (A ! p)")
        case False
        then show ?thesis using re eq by (simp add: collect_block_unfold)
      next
        case r: True
        have ag2: "block_lines (fst (A ! p)) (drop p A) = block_lines (fst (A ! p)) (drop q B)"
          using block_lines_mono [OF gi, of "drop p A"] block_lines_mono [OF gi, of "drop q B"] ag
          by simp
        have a: "\<not> length A \<le> p" using lt by simp
        have b: "\<not> fst (A ! p) \<le> resolved A p par" using r by simp
        have "collect_loop d A p (fst (A ! p)) = collect_loop d B q (fst (A ! p))"
          using "2.IH" [OF a _ b [unfolded resolved_def]] ag2 by (simp add: resolved_def)
        then show ?thesis using r re eq lt qlt by (simp add: collect_block_unfold)
      qed
    qed
  qed
next
  case (3 d A p b)
  show ?case
  proof (intro allI impI)
    fix B q
    assume ag: "block_lines b (drop p A) = block_lines b (drop q B)"
    show "collect_loop d A p b = collect_loop d B q b"
    proof (cases "p < length A \<and> b \<le> fst (A ! p)")
      case False
      then have "block_lines b (drop q B) = []" using ag block_lines_Nil [of p A b] by simp
      then have "\<not> (q < length B \<and> b \<le> fst (B ! q))"
        using block_lines_Cons [of q B b] by auto
      then show ?thesis
        using False by (auto simp: collect_loop.simps [of d A p] collect_loop.simps [of d B q])
    next
      case True
      then have lt: "p < length A" and gi: "b \<le> fst (A ! p)" by simp_all
      have "block_lines b (drop q B) = A ! p # block_lines b (drop (Suc p) A)"
        using block_lines_Cons [OF lt gi] ag by simp
      from block_lines_eq_Cons [OF this]
      have qlt: "q < length B" and eq: "B ! q = A ! p" by simp_all
      obtain n k where s: "parse_statement d A p = (n, k)" by (cases "parse_statement d A p")
      have sB: "parse_statement d B q = (n, k)"
        using "3.IH"(1) [OF True] ag lt gi s by metis
      have "block_lines b (drop (Suc (p + k)) A) = block_lines b (drop (Suc (q + k)) B)"
        using block_lines_after_statement [OF lt gi s]
          block_lines_after_statement [OF qlt _ sB, of b] gi eq ag by simp
      then have "collect_loop d A (Suc (p + k)) b = collect_loop d B (Suc (q + k)) b"
        using "3.IH"(2) [OF True s [symmetric]] by blast
      then show ?thesis
        using True qlt eq s sB
        by (simp add: collect_loop.simps [of d A p] collect_loop.simps [of d B q])
    qed
  qed
qed

lemma collect_loop_whole:
  "\<forall>l \<in> set seg. b \<le> fst l \<Longrightarrow>
   collect_loop d seg q b = (parse_loop d seg q, length seg - q)"
proof (induction d seg q rule: parse_loop.induct)
  case (1 d seg q)
  show ?case
  proof (cases "q < length seg")
    case False
    then show ?thesis by (simp add: collect_loop.simps [of d seg q] parse_loop.simps [of d seg q])
  next
    case True
    then have ge: "b \<le> fst (seg ! q)" using "1.prems" by simp
    obtain n k where s: "parse_statement d seg q = (n, k)" by (cases "parse_statement d seg q")
    have k1: "Suc (q + k) \<le> length seg"
      using parser_counts(1) [of q seg d] True s by simp
    have "collect_loop d seg (Suc (q + k)) b = (parse_loop d seg (Suc (q + k)), length seg - Suc (q + k))"
      using "1.IH" [OF True s [symmetric]] "1.prems" by simp
    then show ?thesis
      using True ge s k1
      by (simp add: collect_loop.simps [of d seg q] parse_loop.simps [of d seg q])
  qed
qed

lemma collect_loop_block:
  "collect_loop d ls p b =
     (parse_loop d (block_lines b (drop p ls)) 0, length (block_lines b (drop p ls)))"
proof -
  let ?seg = "block_lines b (drop p ls)"
  have "block_lines b (drop p ls) = block_lines b (drop 0 ?seg)"
    by (simp add: block_lines_idem)
  then have "collect_loop d ls p b = collect_loop d ?seg 0 b"
    using parser_local(3) [of b p ls d] by blast
  moreover have "\<forall>l \<in> set ?seg. b \<le> fst l"
    by (auto simp: block_lines_def dest: set_takeWhileD)
  ultimately show ?thesis using collect_loop_whole [of ?seg b d 0] by simp
qed

lemma collect_block_rule:
  "collect_block d ls p (Some parent) =
     (if p < length ls \<and> parent < fst (ls ! p)
      then (parse_loop d (block_lines (fst (ls ! p)) (drop p ls)) 0,
            length (block_lines (fst (ls ! p)) (drop p ls)))
      else ([], 0))"
  by (simp add: collect_block_unfold resolved_def collect_loop_block)


text \<open>
  C3. For every block-header line, \<^verbatim>\<open>_collect_block\<close> returns an empty body (and leaves
  the cursor where it is) when there is no next line or the next line's indentation is
  not strictly greater than the parent indentation it is given, the header's. Otherwise
  the next line's indentation is the baseline: the block takes every following line up
  to, and not including, the first line indented strictly less than the baseline, deeper
  lines included, and its body is the result of parsing exactly those lines, so that
  deeper lines form nested sub-blocks. This holds for both parsers; python_code's
  parent indentation \<^verbatim>\<open>None\<close> stands for the indentation of the line before the cursor.
\<close>

theorem collect_block_baseline:
  "collect_block dispatch_py ls p (Some parent) =
     (if p < length ls \<and> parent < fst (ls ! p)
      then (parse_py (block_lines (fst (ls ! p)) (drop p ls)),
            length (block_lines (fst (ls ! p)) (drop p ls)))
      else ([], 0))
   \<and> collect_block dispatch_caml ls p (Some parent) =
     (if p < length ls \<and> parent < fst (ls ! p)
      then (parse_caml (block_lines (fst (ls ! p)) (drop p ls)),
            length (block_lines (fst (ls ! p)) (drop p ls)))
      else ([], 0))
   \<and> collect_block dispatch_py ls (Suc p) None = collect_block dispatch_py ls (Suc p) (Some (fst (ls ! p)))"
  by (simp add: collect_block_rule parse_py_def parse_caml_def collect_block_None)

theorem collect_block_baseline_witness:
  "collect_block dispatch_py demo_lines 2 (Some 0) =
     ([IfNode (VStr ''true'') [DisplayNode (DVal (VStr ''b'')) False],
       DisplayNode (DVal (VStr ''c'')) False], 3)
   \<and> collect_block dispatch_caml demo_lines 3 (Some 4) = ([DisplayNode (DVal (VStr ''b'')) False], 1)
   \<and> collect_block dispatch_caml demo_lines 5 (Some 0) = ([], 0)"
proof -
  have l: "length demo_lines = 6" by (simp add: demo_lines_def)
  have i: "fst (demo_lines ! 2) = 4" "fst (demo_lines ! 3) = 8" "fst (demo_lines ! 5) = 0"
    by (simp_all add: demo_lines_def)
  have b2: "block_lines 4 (drop 2 demo_lines) = take 3 (drop 2 demo_lines)"
    by (simp add: demo_lines_def block_lines_def)
  have b3: "block_lines 8 (drop 3 demo_lines) = take (Suc 0) (drop 3 demo_lines)"
    by (simp add: demo_lines_def block_lines_def)
  have e2: "parse_py (take 3 (drop 2 demo_lines)) =
      [IfNode (VStr ''true'') [DisplayNode (DVal (VStr ''b'')) False],
       DisplayNode (DVal (VStr ''c'')) False]"
    by code_simp
  have e3: "parse_caml (take (Suc 0) (drop 3 demo_lines)) = [DisplayNode (DVal (VStr ''b'')) False]"
    by code_simp
  show ?thesis
    using collect_block_baseline [of demo_lines 2 0] collect_block_baseline [of demo_lines 3 4]
      collect_block_baseline [of demo_lines 5 0]
    by (simp add: l b2 b3 e2 e3 i)
qed

section \<open>String literals and the comment marker\<close>

text \<open>Claim C6. String literal contents survive lexing unchanged: a comment marker, an
  article or a period inside a double-quoted string is never stripped and appears verbatim
  in the emitted \<^verbatim>\<open>STRING\<close> token.

  python_code's \<^verbatim>\<open>_preprocess\<close> hides the string literals, removes articles and periods,
  restores the literals and only then handles comments, so that the marker \<^verbatim>\<open>$\<close> inside a
  literal cuts the line: for the statement \<^verbatim>\<open>Display "a$b"\<close> the \<^verbatim>\<open>STRING\<close> token of
  python_code holds \<^verbatim>\<open>a\<close>. caml-code's \<^verbatim>\<open>_preprocess\<close> handles the comments while the literals
  are hidden and emits \<^verbatim>\<open>a$b\<close>. Articles and periods inside a literal survive in both.\<close>

theorem string_literal_comment_marker:
  "tokenize_py marker_text = Inr [(0, [(''DISPLAY'', VStr ''display''), (''STRING'', VStr ''a'')])]
   \<and> tokenize_caml marker_text
       = Inr [(0, [(''DISPLAY'', VStr ''display''), (''STRING'', VStr ''a$b'')])]
   \<and> tokenize_py article_text
       = Inr [(0, [(''DISPLAY'', VStr ''display''), (''STRING'', VStr ''the a.b'')])]
   \<and> tokenize_caml article_text
       = Inr [(0, [(''DISPLAY'', VStr ''display''), (''STRING'', VStr ''the a.b'')])]"
proof -
  have p1: "tokenize_py marker_text
      = Inr [(0, [(''DISPLAY'', VStr ''display''), (''STRING'', VStr ''a'')])]"
    by code_simp
  have c1: "tokenize_caml marker_text
      = Inr [(0, [(''DISPLAY'', VStr ''display''), (''STRING'', VStr ''a$b'')])]"
    by code_simp
  have p2: "tokenize_py article_text
      = Inr [(0, [(''DISPLAY'', VStr ''display''), (''STRING'', VStr ''the a.b'')])]"
    by code_simp
  have c2: "tokenize_caml article_text
      = Inr [(0, [(''DISPLAY'', VStr ''display''), (''STRING'', VStr ''the a.b'')])]"
    by code_simp
  from p1 c1 p2 c2 show ?thesis by blast
qed

section \<open>Function definitions and calls\<close>

lemma visit_step_py_def_call:
  "visit_step_py H w k (FunctionDefNode n ps body) s = visit_FunctionDefNode n ps body s"
  by (simp add: visit_step_py_def visit_leaf_py_def)

lemma visit_step_caml_def_call:
  "visit_step_caml H w k (FunctionDefNode n ps body) s = visit_FunctionDefNode n ps body s"
  by (simp add: visit_step_caml_def visit_leaf_caml_def)

text \<open>What the two \<^verbatim>\<open>visit_FunctionCallNode\<close> would do for Scenario D: in a namespace
  that did bind \<^verbatim>\<open>add\<close> to the function of \<^verbatim>\<open>builtins.py\<close>, and on a function that is stored
  with its two parameters and its body, the call with \<open>5\<close> and \<open>7\<close> returns \<open>12\<close> from the
  initial state with any scalar variables \<open>vs\<close>, and leaves the state, and with it the
  scalar namespace, as it was. Neither condition is met by the code as it is: see the
  theorem below.\<close>

lemma scenario_d_interpreter_py:
  assumes "callables H ''add'' = Some builtin_add"
  shows "visit_py H (Suc (Suc k)) (FunctionCallNode (Some ''addtwo'') [VInt 5, VInt 7])
     ((init_interp inp)\<lparr>variables := vs, funcs := [Some ''addtwo'' \<mapsto> addtwo_def]\<rparr>)
   = Ok (VInt 12) ((init_interp inp)\<lparr>variables := vs, funcs := [Some ''addtwo'' \<mapsto> addtwo_def]\<rparr>)"
  using assms
  by (simp add: visit_step_py_block visit_FunctionCallNode_py_def
      bind_args_def resolve_value_def find_builtin_def
      builtin_add_def py_add_def is_int_def int_of_def map_add_def
      addtwo_def_def init_interp_def)

lemma scenario_d_interpreter_caml:
  assumes "callables H ''add'' = Some builtin_add"
  shows "visit_caml H (Suc (Suc k)) (FunctionCallNode (Some ''addtwo'') [VInt 5, VInt 7])
     ((init_interp inp)\<lparr>variables := vs, funcs := [Some ''addtwo'' \<mapsto> addtwo_def]\<rparr>)
   = Ok (VInt 12) ((init_interp inp)\<lparr>variables := vs, funcs := [Some ''addtwo'' \<mapsto> addtwo_def]\<rparr>)"
  using assms
  by (simp add: visit_step_caml_block visit_FunctionCallNode_caml_def
      bind_args_def resolve_value_def find_builtin_def
      builtin_add_def py_add_def is_int_def int_of_def map_add_def
      addtwo_def_def init_interp_def)

text \<open>\<^verbatim>\<open>parse_function_def\<close> of python_code consumes the header line and then takes the
  indentation of the line that follows as the parent indentation of the body, so that no
  line is ever deeper than that; and it collects no parameters. Whatever the header and
  the lines after it are, the function it returns has no parameter and no body.\<close>

lemma parse_function_def_py_empty:
  assumes "p < length ls" and "dispatch_py (snd (ls ! p)) = parse_function_def_py (snd (ls ! p))"
  shows "parse_statement dispatch_py ls p =
           (Some (FunctionDefNode (name_of (first_value [''STRING'', ''IDENTIFIER''] (snd (ls ! p)))) [] []), 0)"
  using assms collect_block_next [of dispatch_py ls "Suc p"]
  by (simp add: parse_statement.simps parse_function_def_py_def)

text \<open>Claim C2. For a program that defines a function of two parameters whose only body
  statement is an addition call, the call with \<open>(5, 7)\<close> returns \<open>12\<close>, and afterwards the
  caller's scalar namespace is what it was before the call.

  The code does not do this. Let the module namespace bind no callable to \<^verbatim>\<open>add\<close>, as is
  the case for the namespace that \<^verbatim>\<open>from builtins import *\<close> really fills. On the
  three-line program \<open>scenario_d_text\<close> both lexers give the same lines. The python_code
  parser returns the function without parameters and without body, and the body line as
  a statement of the program: running the program stops at that statement with the
  exception \<^verbatim>\<open>Function 'add' not defined\<close>, and the call of the function, run on its own
  after the definition, returns \<^verbatim>\<open>None\<close>. The caml-code parser returns the function with
  both parameters and the body; there the statements of the program run to the end, and
  the call returns the string \<^verbatim>\<open>add\<close>, the bare name of the call in the body, and leaves
  the state as it was.\<close>

theorem function_def_py_loses_body:
  assumes "callables H ''add'' = None"
  shows "tokenize_py scenario_d_text = Inr scenario_d_lines
   \<and> tokenize_caml scenario_d_text = Inr scenario_d_lines
   \<and> parse_py scenario_d_lines =
       [FunctionDefNode (Some ''addtwo'') [] [],
        FunctionCallNode (Some ''add'') [VStr ''add''],
        FunctionCallNode (Some ''addtwo'') [VInt 5, VInt 7, VInt 5, VInt 7]]
   \<and> execute_py H (Suc (Suc n)) (parse_py scenario_d_lines) (init_interp inp)
       = Err (FunctionNotDefined (Some ''add''))
           ((init_interp inp)\<lparr>funcs := [Some ''addtwo'' \<mapsto> (Some ''addtwo'', [], [])]\<rparr>)
   \<and> visit_py H (Suc (Suc n)) (parse_py scenario_d_lines ! 2)
         ((init_interp inp)\<lparr>funcs := [Some ''addtwo'' \<mapsto> (Some ''addtwo'', [], [])]\<rparr>)
       = Ok VNone ((init_interp inp)\<lparr>funcs := [Some ''addtwo'' \<mapsto> (Some ''addtwo'', [], [])]\<rparr>)
   \<and> parse_caml scenario_d_lines =
       [FunctionDefNode (Some ''addtwo'') [''x'', ''y'']
          [FunctionCallNode (Some ''add'') [VStr ''x'', VStr ''y'']],
        FunctionCallNode (Some ''addtwo'') [VInt 5, VInt 7]]
   \<and> exec_body (visit_caml H (Suc (Suc n))) (parse_caml scenario_d_lines) (init_interp inp)
       = Ok VNone ((init_interp inp)\<lparr>funcs := [Some ''addtwo'' \<mapsto> addtwo_def]\<rparr>)
   \<and> visit_caml H (Suc (Suc n)) (parse_caml scenario_d_lines ! 1)
         ((init_interp inp)\<lparr>funcs := [Some ''addtwo'' \<mapsto> addtwo_def]\<rparr>)
       = Ok (VStr ''add'') ((init_interp inp)\<lparr>funcs := [Some ''addtwo'' \<mapsto> addtwo_def]\<rparr>)"
proof -
  have tp: "tokenize_py scenario_d_text = Inr scenario_d_lines"
    by code_simp
  have tc: "tokenize_caml scenario_d_text = Inr scenario_d_lines"
    by code_simp
  have e: "parse_py scenario_d_lines =
       [FunctionDefNode (Some ''addtwo'') [] [],
        FunctionCallNode (Some ''add'') [VStr ''add''],
        FunctionCallNode (Some ''addtwo'') [VInt 5, VInt 7, VInt 5, VInt 7]]"
    by code_simp
  have c: "parse_caml scenario_d_lines =
       [FunctionDefNode (Some ''addtwo'') [''x'', ''y'']
          [FunctionCallNode (Some ''add'') [VStr ''x'', VStr ''y'']],
        FunctionCallNode (Some ''addtwo'') [VInt 5, VInt 7]]"
    by code_simp
  have x: "execute_py H (Suc (Suc n)) (parse_py scenario_d_lines) (init_interp inp)
       = Err (FunctionNotDefined (Some ''add''))
           ((init_interp inp)\<lparr>funcs := [Some ''addtwo'' \<mapsto> (Some ''addtwo'', [], [])]\<rparr>)"
    unfolding e execute_py_def using assms
    by (simp add: visit_step_py_block visit_step_py_def_call visit_FunctionDefNode_def
        visit_FunctionCallNode_py_def find_builtin_def init_interp_def)
  have v: "visit_py H (Suc (Suc n)) (parse_py scenario_d_lines ! 2)
         ((init_interp inp)\<lparr>funcs := [Some ''addtwo'' \<mapsto> (Some ''addtwo'', [], [])]\<rparr>)
       = Ok VNone ((init_interp inp)\<lparr>funcs := [Some ''addtwo'' \<mapsto> (Some ''addtwo'', [], [])]\<rparr>)"
    unfolding e
    by (simp add: visit_step_py_block visit_FunctionCallNode_py_def bind_args_def init_interp_def)
  have y: "exec_body (visit_caml H (Suc (Suc n))) (parse_caml scenario_d_lines) (init_interp inp)
       = Ok VNone ((init_interp inp)\<lparr>funcs := [Some ''addtwo'' \<mapsto> addtwo_def]\<rparr>)"
    unfolding c using assms
    by (simp add: visit_step_caml_block visit_step_caml_def_call visit_FunctionDefNode_def
        visit_FunctionCallNode_caml_def bind_args_def resolve_value_def find_builtin_def
        name_value_def map_add_def addtwo_def_def init_interp_def)
  have w: "visit_caml H (Suc (Suc n)) (parse_caml scenario_d_lines ! 1)
         ((init_interp inp)\<lparr>funcs := [Some ''addtwo'' \<mapsto> addtwo_def]\<rparr>)
       = Ok (VStr ''add'') ((init_interp inp)\<lparr>funcs := [Some ''addtwo'' \<mapsto> addtwo_def]\<rparr>)"
    unfolding c using assms
    by (simp add: visit_step_caml_block visit_FunctionCallNode_caml_def bind_args_def
        resolve_value_def find_builtin_def name_value_def map_add_def addtwo_def_def
        init_interp_def)
  from tp tc e c x v y w show ?thesis by blast
qed

theorem function_def_py_loses_body_witness:
  "callables plain_host ''add'' = None
   \<and> parse_py scenario_d_lines =
       [FunctionDefNode (Some ''addtwo'') [] [],
        FunctionCallNode (Some ''add'') [VStr ''add''],
        FunctionCallNode (Some ''addtwo'') [VInt 5, VInt 7, VInt 5, VInt 7]]
   \<and> execute_py plain_host (Suc (Suc 0)) (parse_py scenario_d_lines) (init_interp [])
       = Err (FunctionNotDefined (Some ''add''))
           ((init_interp [])\<lparr>funcs := [Some ''addtwo'' \<mapsto> (Some ''addtwo'', [], [])]\<rparr>)
   \<and> visit_py plain_host (Suc (Suc 0)) (parse_py scenario_d_lines ! 2)
         ((init_interp [])\<lparr>funcs := [Some ''addtwo'' \<mapsto> (Some ''addtwo'', [], [])]\<rparr>)
       = Ok VNone ((init_interp [])\<lparr>funcs := [Some ''addtwo'' \<mapsto> (Some ''addtwo'', [], [])]\<rparr>)
   \<and> visit_caml plain_host (Suc (Suc 0)) (parse_caml scenario_d_lines ! 1)
         ((init_interp [])\<lparr>funcs := [Some ''addtwo'' \<mapsto> addtwo_def]\<rparr>)
       = Ok (VStr ''add'') ((init_interp [])\<lparr>funcs := [Some ''addtwo'' \<mapsto> addtwo_def]\<rparr>)"
proof -
  have a: "callables plain_host ''add'' = None"
    by (simp add: plain_host_def module_namespace_def)
  from a function_def_py_loses_body [OF a, of 0 "[]"] show ?thesis by blast
qed

end
